theory Spec2Isabelle
  imports Complex_Main "HOL-Library.Log_Nat" "HOL-Library.Sublist"
begin

section \<open>Numbers\<close>

text \<open>
  Every TypeScript \<open>number\<close> of the modelled code is an IEEE-754 binary64 value. A finite
  double is modelled by the rational it denotes. Comparisons of doubles are exact; an
  arithmetic operation computes the exact rational result and rounds it to the nearest
  double, ties to even (\<open>rnd\<close>). Infinities and NaN are outside the model: the feedback
  schema admits only scores between 0 and 1, and the retry configuration holds finite
  millisecond counts. The type does not single out the rationals that are doubles: what is
  proved for every value of the type holds for every finite double.
\<close>

type_synonym double = rat

definition pow2 :: "int \<Rightarrow> rat" where
  "pow2 q = (if 0 \<le> q then 2 ^ nat q else 1 / 2 ^ nat (- q))"

text \<open>\<open>ilog2 x\<close> is the binary exponent of a nonzero \<open>x\<close>: \<open>2^e \<le> |x| < 2^(e+1)\<close>.\<close>

definition ilog2 :: "rat \<Rightarrow> int" where
  "ilog2 x = (let (a, b) = quotient_of \<bar>x\<bar>; e0 = bitlen a - bitlen b
              in if pow2 e0 \<le> \<bar>x\<bar> then e0 else e0 - 1)"

definition round_half_even :: "rat \<Rightarrow> int" where
  "round_half_even x = (let f = \<lfloor>x\<rfloor>; d = x - of_int f in
     if d < 1 / 2 then f else if 1 / 2 < d then f + 1 else if even f then f else f + 1)"

text \<open>
  Rounding to binary64: 53 significant bits, so the unit in the last place of \<open>x\<close> is
  \<open>2^(e - 52)\<close>, and never below the subnormal spacing \<open>2^(-1074)\<close>.
\<close>

definition rnd :: "rat \<Rightarrow> double" where
  "rnd x = (if x = 0 then 0 else
     let q = max (ilog2 x - 52) (- 1074) in of_int (round_half_even (x / pow2 q)) * pow2 q)"

text \<open>A decimal literal of the source or of a JSON text denotes the nearest double.\<close>

definition lit :: "rat \<Rightarrow> double" where
  "lit x = rnd x"

definition fadd :: "double \<Rightarrow> double \<Rightarrow> double" where
  "fadd a b = rnd (a + b)"

definition fsub :: "double \<Rightarrow> double \<Rightarrow> double" where
  "fsub a b = rnd (a - b)"

definition fmul :: "double \<Rightarrow> double \<Rightarrow> double" where
  "fmul a b = rnd (a * b)"

section \<open>Data model\<close>

text \<open>\<open>DiscriminatorFeedback\<close> and \<open>IterationState\<close> of \<open>workflow.schema.ts\<close>. The clock
  readings and token counts of an iteration record (\<open>durationMs\<close>, \<open>timestamp\<close>,
  \<open>tokensUsed\<close>) take no part in any decision and are left out.\<close>

record Feedback =
  passed :: bool
  score :: double
  issues :: "string list"
  suggestions :: string
  reasoning :: "string option"

record IterationState =
  number :: nat
  generatorOutput :: string
  feedback :: Feedback

datatype StopReason =
  Threshold_reached | Max_iterations | Stagnation | Error_reason | Cancelled | Early_termination

section \<open>Stop conditions\<close>

text \<open>\<open>stop-condition.interface.ts\<close>. The optional \<open>reason\<close> of a result is an option. The
  \<open>message\<close> of a result is a text for the log and is left out.\<close>

record StopConditionResult =
  shouldStop :: bool
  reason :: "StopReason option"

record StopConditionContext =
  currentIteration :: nat
  maxIterations :: nat
  scoreThreshold :: double
  iterations :: "IterationState list"
  currentScore :: double
  currentPassed :: bool

record StopCondition =
  name :: string
  evaluate :: "StopConditionContext \<Rightarrow> StopConditionResult"

definition continue :: StopConditionResult where
  "continue = \<lparr>shouldStop = False, reason = None\<rparr>"

definition stop_with :: "StopReason \<Rightarrow> StopConditionResult" where
  "stop_with r = \<lparr>shouldStop = True, reason = Some r\<rparr>"

definition ThresholdStopCondition :: StopCondition where
  "ThresholdStopCondition =
     \<lparr>name = ''threshold'',
      evaluate = (\<lambda>context.
        if currentPassed context \<and> scoreThreshold context \<le> currentScore context
        then stop_with Threshold_reached
        else continue)\<rparr>"

definition MaxIterationsStopCondition :: StopCondition where
  "MaxIterationsStopCondition =
     \<lparr>name = ''max_iterations'',
      evaluate = (\<lambda>context.
        if maxIterations context \<le> currentIteration context
        then stop_with Max_iterations
        else continue)\<rparr>"

text \<open>\<open>StagnationStopCondition\<close>: the constructor fills the two defaults; \<open>evaluate\<close> looks at
  the last \<open>maxStagnantIterations + 1\<close> scores (\<open>iterations.slice(-N - 1)\<close>).\<close>

definition stagnation_evaluate :: "nat \<Rightarrow> double \<Rightarrow> StopConditionContext \<Rightarrow> StopConditionResult" where
  "stagnation_evaluate maxStagnantIterations improvementThreshold context =
     (if length (iterations context) < maxStagnantIterations + 1 then continue
      else
        let recentIterations =
              drop (length (iterations context) - (maxStagnantIterations + 1)) (iterations context);
            recentScores = map (\<lambda>iter. score (feedback iter)) recentIterations
        in case recentScores of
             [] \<Rightarrow> continue
           | baselineScore # later \<Rightarrow>
               let hasImprovement =
                     list_ex (\<lambda>s. improvementThreshold < fsub s baselineScore) later
               in if \<not> hasImprovement then stop_with Stagnation else continue)"

definition StagnationStopCondition :: "nat option \<Rightarrow> double option \<Rightarrow> StopCondition" where
  "StagnationStopCondition maxStagnantIterations improvementThreshold =
     \<lparr>name = ''stagnation'',
      evaluate = stagnation_evaluate
        (case maxStagnantIterations of None \<Rightarrow> 3 | Some n \<Rightarrow> n)
        (case improvementThreshold of None \<Rightarrow> lit (1 / 100) | Some t \<Rightarrow> t)\<rparr>"

definition EarlyTerminationStopCondition :: "double option \<Rightarrow> nat option \<Rightarrow> StopCondition" where
  "EarlyTerminationStopCondition floorScore minIterations =
     \<lparr>name = ''early_termination'',
      evaluate = (\<lambda>context.
        if currentIteration context < (case minIterations of None \<Rightarrow> 2 | Some n \<Rightarrow> n)
        then continue
        else if currentScore context < (case floorScore of None \<Rightarrow> lit (1 / 10) | Some t \<Rightarrow> t)
        then stop_with Early_termination
        else continue)\<rparr>"

text \<open>\<open>CompositeStopCondition\<close>: the first condition that reports a stop wins; its result is
  passed on with its \<open>reason\<close> untouched (only the message is rewritten).\<close>

fun composite_evaluate :: "StopCondition list \<Rightarrow> StopConditionContext \<Rightarrow> StopConditionResult" where
  "composite_evaluate [] context = continue"
| "composite_evaluate (condition # conditions) context =
     (let result = evaluate condition context
      in if shouldStop result then result else composite_evaluate conditions context)"

definition CompositeStopCondition :: "StopCondition list \<Rightarrow> StopCondition" where
  "CompositeStopCondition conditions =
     \<lparr>name = ''composite'', evaluate = composite_evaluate conditions\<rparr>"

definition addCondition :: "StopCondition \<Rightarrow> StopCondition list \<Rightarrow> StopCondition list" where
  "addCondition condition conditions = conditions @ [condition]"

definition removeCondition :: "string \<Rightarrow> StopCondition list \<Rightarrow> StopCondition list" where
  "removeCondition n conditions = filter (\<lambda>c. name c \<noteq> n) conditions"

definition createDefaultStopConditions :: StopCondition where
  "createDefaultStopConditions =
     CompositeStopCondition
       [ThresholdStopCondition, MaxIterationsStopCondition,
        StagnationStopCondition None None, EarlyTerminationStopCondition None None]"

text \<open>A history whose feedback scores are the given ones, numbered from 1, and the
  context the orchestrator builds after its last iteration.\<close>

definition feedback_of :: "bool \<Rightarrow> double \<Rightarrow> Feedback" where
  "feedback_of p s = \<lparr>passed = p, score = s, issues = [], suggestions = [], reasoning = None\<rparr>"

definition history_of :: "double list \<Rightarrow> IterationState list" where
  "history_of ss =
     map (\<lambda>(i, s). \<lparr>number = Suc i, generatorOutput = [], feedback = feedback_of False s\<rparr>)
       (enumerate 0 ss)"

definition context_of :: "nat \<Rightarrow> double \<Rightarrow> double list \<Rightarrow> StopConditionContext" where
  "context_of m th ss =
     \<lparr>currentIteration = length ss, maxIterations = m, scoreThreshold = th,
      iterations = history_of ss,
      currentScore = (if ss = [] then 0 else last ss), currentPassed = False\<rparr>"

definition score_at :: "StopConditionContext \<Rightarrow> nat \<Rightarrow> double" where
  "score_at context i = score (feedback (iterations context ! i))"

section \<open>Orchestrator\<close>

text \<open>A value thrown by JavaScript code: an \<open>Error\<close> instance with its message and its
  \<open>status\<close> and \<open>statusCode\<close> properties (absent when \<open>None\<close>), another object with the same
  two properties, a primitive, or \<open>undefined\<close>. Status codes are integers.\<close>

datatype thrown =
  ErrorObject string "int option" "int option"
| PlainObject "int option" "int option"
| PrimitiveValue string
| Undefined

record ExecuteParams =
  params_task :: string
  params_criteria :: "string list"
  params_maxIterations :: nat
  params_scoreThreshold :: double

text \<open>The two runners call a language model and may throw (after their retries). A run of
  the generator is a function of its parameters, one of which is the iteration number. The
  discriminator is not given the iteration number, so its first argument here is the number
  of the call, to let it answer differently each time.\<close>

record Runners =
  generator_run :: "string \<Rightarrow> Feedback option \<Rightarrow> nat \<Rightarrow> thrown + string"
  discriminator_run :: "nat \<Rightarrow> string \<Rightarrow> string list \<Rightarrow> string \<Rightarrow> thrown + Feedback"

text \<open>The local variables of \<open>execute\<close>; \<open>history\<close> is its array \<open>iterations\<close>.\<close>

record LoopState =
  currentOutput :: string
  lastFeedback :: "Feedback option"
  stopReason :: StopReason
  history :: "IterationState list"

text \<open>\<open>WorkflowResult\<close>: \<open>final_output\<close>, \<open>iterations_count\<close> and \<open>stop_reason\<close> are its fields
  \<open>output\<close>, \<open>iterations\<close> and \<open>reason\<close>; the random identifier and the duration are left
  out.\<close>

record WorkflowResult =
  success :: bool
  final_output :: string
  iterations_count :: nat
  finalScore :: double
  stop_reason :: StopReason
  iterationHistory :: "IterationState list"

datatype WorkflowExecutionError = WorkflowExecutionError thrown

definition RalphOrchestrator_stopConditions :: "StopCondition option \<Rightarrow> StopCondition" where
  "RalphOrchestrator_stopConditions configured =
     (case configured of None \<Rightarrow> createDefaultStopConditions | Some c \<Rightarrow> c)"

definition stopContext_of ::
  "ExecuteParams \<Rightarrow> nat \<Rightarrow> IterationState list \<Rightarrow> Feedback \<Rightarrow> StopConditionContext" where
  "stopContext_of params iteration its fb =
     \<lparr>currentIteration = iteration,
      maxIterations = params_maxIterations params,
      scoreThreshold = params_scoreThreshold params,
      iterations = its,
      currentScore = score fb,
      currentPassed = passed fb\<rparr>"

text \<open>The \<open>for\<close> loop of \<open>execute\<close>, from the head of the given iteration. The second
  component of the result is the value thrown inside the \<open>try\<close> block, if any.\<close>

function execute_loop ::
  "Runners \<Rightarrow> StopCondition \<Rightarrow> ExecuteParams \<Rightarrow> nat \<Rightarrow> LoopState \<Rightarrow> LoopState \<times> thrown option" where
  "execute_loop rs sc params iteration st =
     (if iteration \<le> params_maxIterations params then
        (case generator_run rs (params_task params) (lastFeedback st) iteration of
           Inl e \<Rightarrow> (st, Some e)
         | Inr out \<Rightarrow>
             (case discriminator_run rs iteration out (params_criteria params) (params_task params) of
                Inl e \<Rightarrow> (st\<lparr>currentOutput := out\<rparr>, Some e)
              | Inr fb \<Rightarrow>
                  let st1 = st\<lparr>currentOutput := out, lastFeedback := Some fb,
                               history := history st @
                                 [\<lparr>number = iteration, generatorOutput = out, feedback = fb\<rparr>]\<rparr>;
                      stopResult = evaluate sc (stopContext_of params iteration (history st1) fb)
                  in if shouldStop stopResult
                     then (st1\<lparr>stopReason :=
                              (case reason stopResult of Some r \<Rightarrow> r | None \<Rightarrow> Threshold_reached)\<rparr>,
                           None)
                     else execute_loop rs sc params (iteration + 1) st1))
      else (st, None))"
  by pat_completeness auto
termination
  by (relation "measure (\<lambda>(rs, sc, params, iteration, st).
        params_maxIterations params + 1 - iteration)") auto

declare execute_loop.simps [simp del]

definition initial_state :: LoopState where
  "initial_state =
     \<lparr>currentOutput = [], lastFeedback = None, stopReason = Max_iterations, history = []\<rparr>"

text \<open>What \<open>execute\<close> does once the loop is left: the result record, or the wrapped error.\<close>

definition execute_finish ::
  "LoopState \<times> thrown option \<Rightarrow> WorkflowExecutionError + WorkflowResult" where
  "execute_finish outcome =
     (case outcome of
        (st, Some e) \<Rightarrow> Inl (WorkflowExecutionError e)
      | (st, None) \<Rightarrow>
          Inr \<lparr>success = (stopReason st = Threshold_reached),
               final_output = currentOutput st,
               iterations_count = length (history st),
               finalScore = (case lastFeedback st of Some fb \<Rightarrow> score fb | None \<Rightarrow> 0),
               stop_reason = stopReason st,
               iterationHistory = history st\<rparr>)"

definition execute ::
  "Runners \<Rightarrow> StopCondition \<Rightarrow> ExecuteParams \<Rightarrow> WorkflowExecutionError + WorkflowResult" where
  "execute rs sc params = execute_finish (execute_loop rs sc params 1 initial_state)"

text \<open>The stop reason a stop result leads to, and the context of the last recorded
  iteration of a history.\<close>

definition resolve_reason :: "StopConditionResult \<Rightarrow> StopReason" where
  "resolve_reason res =
     (if shouldStop res then (case reason res of Some r \<Rightarrow> r | None \<Rightarrow> Threshold_reached)
      else Max_iterations)"

definition final_context :: "ExecuteParams \<Rightarrow> IterationState list \<Rightarrow> StopConditionContext" where
  "final_context params its = stopContext_of params (length its) its (feedback (last its))"

text \<open>Runners and stop conditions for the examples.\<close>

definition constant_runners :: "Feedback \<Rightarrow> Runners" where
  "constant_runners fb =
     \<lparr>generator_run = (\<lambda>task previousFeedback iterationNumber. Inr ''draft''),
      discriminator_run = (\<lambda>i out criteria task. Inr fb)\<rparr>"

definition reasonless_stop :: StopCondition where
  "reasonless_stop =
     \<lparr>name = ''custom'', evaluate = (\<lambda>context. \<lparr>shouldStop = True, reason = None\<rparr>)\<rparr>"

definition example_params :: "nat \<Rightarrow> ExecuteParams" where
  "example_params m =
     \<lparr>params_task = ''task'', params_criteria = [''c''], params_maxIterations = m,
      params_scoreThreshold = lit (7 / 10)\<rparr>"

definition example_record :: "nat \<Rightarrow> double \<Rightarrow> IterationState" where
  "example_record i s = \<lparr>number = i, generatorOutput = ''draft'', feedback = feedback_of False s\<rparr>"

definition reasonless_result :: WorkflowResult where
  "reasonless_result =
     \<lparr>success = True, final_output = ''draft'', iterations_count = 1, finalScore = lit (1 / 10),
      stop_reason = Threshold_reached,
      iterationHistory = [example_record 1 (lit (1 / 10))]\<rparr>"

definition three_rounds_result :: WorkflowResult where
  "three_rounds_result =
     \<lparr>success = False, final_output = ''draft'', iterations_count = 3, finalScore = lit (1 / 2),
      stop_reason = Max_iterations,
      iterationHistory = map (\<lambda>i. example_record i (lit (1 / 2))) [1, 2, 3]\<rparr>"

section \<open>Retry\<close>

text \<open>\<open>RetryOptions\<close> of \<open>retry.ts\<close>: every field is optional. A callback returns
  \<open>None\<close> when it returns normally and \<open>Some e\<close> when it throws \<open>e\<close>. The delay handed to it
  is the result of \<open>Math.floor\<close>, an integer.\<close>

record RetryOptions =
  opt_maxAttempts :: "nat option"
  opt_initialDelayMs :: "double option"
  opt_maxDelayMs :: "double option"
  opt_backoffMultiplier :: "double option"
  opt_jitter :: "bool option"
  opt_shouldRetry :: "(thrown \<Rightarrow> nat \<Rightarrow> bool) option"
  opt_onRetry :: "(thrown \<Rightarrow> nat \<Rightarrow> int \<Rightarrow> thrown option) option"

text \<open>The merged record \<open>{...DEFAULT_OPTIONS, ...options}\<close>.\<close>

record ResolvedOptions =
  maxAttempts :: nat
  initialDelayMs :: double
  maxDelayMs :: double
  backoffMultiplier :: double
  jitter :: bool

definition DEFAULT_OPTIONS :: ResolvedOptions where
  "DEFAULT_OPTIONS =
     \<lparr>maxAttempts = 3, initialDelayMs = 1000, maxDelayMs = 30000, backoffMultiplier = 2,
      jitter = True\<rparr>"

definition resolve_options :: "RetryOptions \<Rightarrow> ResolvedOptions" where
  "resolve_options options =
     \<lparr>maxAttempts = (case opt_maxAttempts options of None \<Rightarrow> maxAttempts DEFAULT_OPTIONS | Some v \<Rightarrow> v),
      initialDelayMs =
        (case opt_initialDelayMs options of None \<Rightarrow> initialDelayMs DEFAULT_OPTIONS | Some v \<Rightarrow> v),
      maxDelayMs = (case opt_maxDelayMs options of None \<Rightarrow> maxDelayMs DEFAULT_OPTIONS | Some v \<Rightarrow> v),
      backoffMultiplier =
        (case opt_backoffMultiplier options of None \<Rightarrow> backoffMultiplier DEFAULT_OPTIONS | Some v \<Rightarrow> v),
      jitter = (case opt_jitter options of None \<Rightarrow> jitter DEFAULT_OPTIONS | Some v \<Rightarrow> v)\<rparr>"

text \<open>\<open>String.prototype.toLowerCase\<close> on the ASCII letters, and \<open>String.prototype.includes\<close>.\<close>

definition toLowerCase :: "string \<Rightarrow> string" where
  "toLowerCase s =
     map (\<lambda>c. let n = (of_char c :: nat)
              in if 65 \<le> n \<and> n \<le> 90 then char_of (n + 32) else c) s"

definition String_includes :: "string \<Rightarrow> string \<Rightarrow> bool" where
  "String_includes s sub = sublist sub s"

text \<open>The last test of \<open>defaultShouldRetry\<close>: \<open>status ?? statusCode\<close>, and when it is defined,
  whether it is 429 or at least 500.\<close>

definition status_retryable :: "int option \<Rightarrow> int option \<Rightarrow> bool" where
  "status_retryable status statusCode =
     (case (case status of Some s \<Rightarrow> Some s | None \<Rightarrow> statusCode) of
        Some code \<Rightarrow> code = 429 \<or> 500 \<le> code
      | None \<Rightarrow> False)"

definition defaultShouldRetry :: "thrown \<Rightarrow> nat \<Rightarrow> bool" where
  "defaultShouldRetry error attempt =
     (case error of
        ErrorObject msg status statusCode \<Rightarrow>
          (let message = toLowerCase msg in
           if String_includes message ''econnrefused'' \<or> String_includes message ''etimedout''
              \<or> String_includes message ''enotfound'' \<or> String_includes message ''network''
              \<or> String_includes message ''socket''
           then True
           else if String_includes message ''rate limit'' \<or> String_includes message ''429'' then True
           else if String_includes message ''500'' \<or> String_includes message ''502'' \<or> String_includes message ''503''
           then True
           else if String_includes message ''timeout'' then True
           else status_retryable status statusCode)
      | PlainObject status statusCode \<Rightarrow> status_retryable status statusCode
      | PrimitiveValue v \<Rightarrow> False
      | Undefined \<Rightarrow> False)"

text \<open>\<open>Math.pow\<close> with a natural exponent. The language fixes its result for the exponent 0,
  which is 1, and leaves every other result to the engine, as an approximation of the power
  that need not be the nearest double. The engine's power is the parameter \<open>approx\<close>; a
  power that overflows to \<open>Infinity\<close> is outside the number model.
  \<open>calculateDelay\<close> is only called with an attempt number of at least 1, so that the
  exponent \<open>attempt - 1\<close> is a natural number; \<open>random\<close> is the value that \<open>Math.random()\<close>
  returns in this call.\<close>

definition Math_pow :: "(double \<Rightarrow> nat \<Rightarrow> double) \<Rightarrow> double \<Rightarrow> nat \<Rightarrow> double" where
  "Math_pow approx b n = (if n = 0 then 1 else approx b n)"

definition calculateDelay ::
  "(double \<Rightarrow> nat \<Rightarrow> double) \<Rightarrow> nat \<Rightarrow> ResolvedOptions \<Rightarrow> double \<Rightarrow> int" where
  "calculateDelay approx attempt options random =
     (let exponentialDelay =
            fmul (initialDelayMs options)
              (Math_pow approx (backoffMultiplier options) (attempt - 1));
          cappedDelay = min exponentialDelay (maxDelayMs options)
      in if jitter options
         then (let jitterRange = fmul cappedDelay random in \<lfloor>fadd cappedDelay jitterRange\<rfloor>)
         else \<lfloor>cappedDelay\<rfloor>)"

text \<open>What a run of \<open>retry\<close> does, in order: calls of the wrapped function (by attempt
  number), invocations of the \<open>onRetry\<close> callback with their three arguments, and waits.\<close>

datatype event = Called nat | OnRetry thrown nat int | Slept int

definition shouldRetry_of :: "RetryOptions \<Rightarrow> thrown \<Rightarrow> nat \<Rightarrow> bool" where
  "shouldRetry_of options =
     (case opt_shouldRetry options of None \<Rightarrow> defaultShouldRetry | Some f \<Rightarrow> f)"

definition call_onRetry :: "RetryOptions \<Rightarrow> thrown \<Rightarrow> nat \<Rightarrow> int \<Rightarrow> thrown option" where
  "call_onRetry options error attempt delayMs =
     (case opt_onRetry options of None \<Rightarrow> None | Some callback \<Rightarrow> callback error attempt delayMs)"

definition onRetry_events :: "RetryOptions \<Rightarrow> thrown \<Rightarrow> nat \<Rightarrow> int \<Rightarrow> event list" where
  "onRetry_events options error attempt delayMs =
     (case opt_onRetry options of None \<Rightarrow> [] | Some callback \<Rightarrow> [OnRetry error attempt delayMs])"

definition prepend :: "event list \<Rightarrow> 'r \<times> event list \<Rightarrow> 'r \<times> event list" where
  "prepend evs out = (fst out, evs @ snd out)"

text \<open>The \<open>for\<close> loop of \<open>retry\<close>, from the head of the given attempt. The wrapped function is
  given by the outcome of each of its calls, \<open>random\<close> by the draw made in each attempt,
  \<open>approx\<close> is the engine's power.
  The result is the value returned (\<open>Inr\<close>) or thrown (\<open>Inl\<close>), and the events of the run.\<close>

function retry_loop ::
  "(double \<Rightarrow> nat \<Rightarrow> double) \<Rightarrow> (nat \<Rightarrow> thrown + 'a) \<Rightarrow> RetryOptions \<Rightarrow> (nat \<Rightarrow> double)
     \<Rightarrow> nat \<Rightarrow> thrown \<Rightarrow> (thrown + 'a) \<times> event list" where
  "retry_loop approx fn options random attempt lastError =
     (let opts = resolve_options options in
      if attempt \<le> maxAttempts opts then
        (case fn attempt of
           Inr v \<Rightarrow> (Inr v, [Called attempt])
         | Inl error \<Rightarrow>
             if attempt = maxAttempts opts then (Inl error, [Called attempt])
             else if \<not> shouldRetry_of options error attempt then (Inl error, [Called attempt])
             else
               let delayMs = calculateDelay approx attempt opts (random attempt) in
               (case call_onRetry options error attempt delayMs of
                  Some thrown_by_callback \<Rightarrow>
                    (Inl thrown_by_callback,
                     Called attempt # onRetry_events options error attempt delayMs)
                | None \<Rightarrow>
                    prepend
                      (Called attempt # onRetry_events options error attempt delayMs
                         @ [Slept delayMs])
                      (retry_loop approx fn options random (attempt + 1) error)))
      else (Inl lastError, []))"
  by pat_completeness auto
termination
  by (relation "measure (\<lambda>(approx, fn, options, random, attempt, lastError).
        maxAttempts (resolve_options options) + 1 - attempt)") auto

declare retry_loop.simps [simp del]

definition retry ::
  "(double \<Rightarrow> nat \<Rightarrow> double) \<Rightarrow> (nat \<Rightarrow> thrown + 'a) \<Rightarrow> RetryOptions \<Rightarrow> (nat \<Rightarrow> double)
     \<Rightarrow> (thrown + 'a) \<times> event list" where
  "retry approx fn options random = retry_loop approx fn options random 1 Undefined"

text \<open>Options and errors for the examples; the errors are those of \<open>llm.errors.ts\<close>, which
  carry their HTTP status in \<open>statusCode\<close>.\<close>

definition no_options :: RetryOptions where
  "no_options = \<lparr>opt_maxAttempts = None, opt_initialDelayMs = None, opt_maxDelayMs = None,
     opt_backoffMultiplier = None, opt_jitter = None, opt_shouldRetry = None, opt_onRetry = None\<rparr>"

definition LLMRateLimitError :: "string \<Rightarrow> thrown" where
  "LLMRateLimitError provider = ErrorObject (''Rate limit exceeded for '' @ provider) None (Some 429)"

definition LLMAuthenticationError :: "string \<Rightarrow> thrown" where
  "LLMAuthenticationError provider =
     ErrorObject (''Authentication failed for '' @ provider @ ''. Check your API key.'') None (Some 401)"

definition LLMTimeoutError :: "string \<Rightarrow> string \<Rightarrow> thrown" where
  "LLMTimeoutError provider ms =
     ErrorObject (''LLM request to '' @ provider @ '' timed out after '' @ ms @ ''ms'') None (Some 504)"

text \<open>The events of a round that ends in a wait, the rounds after which the loop goes on,
  and the attempts at which it ends whatever the callback does.\<close>

definition failure_of :: "(nat \<Rightarrow> thrown + 'a) \<Rightarrow> nat \<Rightarrow> thrown" where
  "failure_of fn i = (case fn i of Inl e \<Rightarrow> e | Inr v \<Rightarrow> Undefined)"

definition delay_of ::
  "(double \<Rightarrow> nat \<Rightarrow> double) \<Rightarrow> RetryOptions \<Rightarrow> (nat \<Rightarrow> double) \<Rightarrow> nat \<Rightarrow> int" where
  "delay_of approx options random i =
     calculateDelay approx i (resolve_options options) (random i)"

definition round_events ::
  "(double \<Rightarrow> nat \<Rightarrow> double) \<Rightarrow> (nat \<Rightarrow> thrown + 'a) \<Rightarrow> RetryOptions \<Rightarrow> (nat \<Rightarrow> double)
     \<Rightarrow> nat \<Rightarrow> event list" where
  "round_events approx fn options random i =
     Called i # onRetry_events options (failure_of fn i) i (delay_of approx options random i)
       @ [Slept (delay_of approx options random i)]"

definition retried ::
  "(double \<Rightarrow> nat \<Rightarrow> double) \<Rightarrow> (nat \<Rightarrow> thrown + 'a) \<Rightarrow> RetryOptions \<Rightarrow> (nat \<Rightarrow> double)
     \<Rightarrow> nat \<Rightarrow> bool" where
  "retried approx fn options random i =
     (case fn i of
        Inr v \<Rightarrow> False
      | Inl e \<Rightarrow> shouldRetry_of options e i
                \<and> call_onRetry options e i (delay_of approx options random i) = None)"

definition decisive :: "(nat \<Rightarrow> thrown + 'a) \<Rightarrow> RetryOptions \<Rightarrow> nat \<Rightarrow> bool" where
  "decisive fn options j =
     (case fn j of
        Inr v \<Rightarrow> True
      | Inl e \<Rightarrow> j = maxAttempts (resolve_options options) \<or> \<not> shouldRetry_of options e j)"

fun is_OnRetry :: "event \<Rightarrow> bool" where
  "is_OnRetry (OnRetry e a d) = True"
| "is_OnRetry ev = False"

fun is_Called :: "event \<Rightarrow> bool" where
  "is_Called (Called a) = True"
| "is_Called ev = False"

definition onRetry_count :: "event list \<Rightarrow> nat" where
  "onRetry_count tr = length (filter is_OnRetry tr)"

definition call_count :: "event list \<Rightarrow> nat" where
  "call_count tr = length (filter is_Called tr)"

text \<open>In a run with a callback, every wait comes right after an invocation of the callback
  with the same delay, and an invocation not followed by a wait is the last event.\<close>

fun pre_wait_order :: "event list \<Rightarrow> bool" where
  "pre_wait_order [] = True"
| "pre_wait_order (OnRetry e a d # Slept d' # tr) = (d = d' \<and> pre_wait_order tr)"
| "pre_wait_order (OnRetry e a d # tr) = (tr = [])"
| "pre_wait_order (Slept d # tr) = False"
| "pre_wait_order (Called a # tr) = pre_wait_order tr"

text \<open>Wrapped calls, callbacks and a random source for the examples.\<close>

definition flaky_call :: "nat \<Rightarrow> nat \<Rightarrow> thrown + string" where
  "flaky_call k attempt = (if attempt \<le> k then Inl (LLMRateLimitError ''anthropic'') else Inr ''ok'')"

definition failing_call :: "thrown \<Rightarrow> nat \<Rightarrow> thrown + string" where
  "failing_call e attempt = Inl e"

definition silent_callback :: "thrown \<Rightarrow> nat \<Rightarrow> int \<Rightarrow> thrown option" where
  "silent_callback error attempt delayMs = None"

definition throwing_callback :: "thrown \<Rightarrow> nat \<Rightarrow> int \<Rightarrow> thrown option" where
  "throwing_callback error attempt delayMs = Some (ErrorObject ''callback failed'' None None)"

definition half_draws :: "nat \<Rightarrow> double" where
  "half_draws attempt = 1 / 2"


text \<open>The capped delay as the code computes it: the double product of the initial delay and
  the engine's power, capped at the maximal delay.\<close>

definition capped_delay ::
  "(double \<Rightarrow> nat \<Rightarrow> double) \<Rightarrow> nat \<Rightarrow> ResolvedOptions \<Rightarrow> double" where
  "capped_delay approx a options =
     min (fmul (initialDelayMs options) (Math_pow approx (backoffMultiplier options) (a - 1)))
         (maxDelayMs options)"


text \<open>A power for the examples, the nearest double to the exact power: the examples call it
  on the default multiplier 2 only, where it is exact, and the delay of a first attempt does
  not call it at all. A draw just below 0.6, a multiple of \<open>2^(-52)\<close> and so a double. The
  error of \<open>shared/errors\<close> that the workflow tool raises for an input field that is too
  large, with status 400; the two sizes are the decimal numerals that the template literal
  prints.\<close>

definition rounded_pow :: "double \<Rightarrow> nat \<Rightarrow> double" where
  "rounded_pow b n = rnd (b ^ n)"


definition InputSizeExceededError :: "string \<Rightarrow> string \<Rightarrow> string \<Rightarrow> thrown" where
  "InputSizeExceededError field size_bytes maxSize =
     ErrorObject (''Field '' @ [CHR 0x27] @ field @ [CHR 0x27] @ '' size '' @ size_bytes
                    @ '' bytes exceeds maximum '' @ maxSize @ '' bytes'') None (Some 400)"

definition network_error :: thrown where
  "network_error = ErrorObject ''connect ECONNREFUSED 127.0.0.1:443'' None None"

definition validation_error :: thrown where
  "validation_error = ErrorObject ''Input validation failed: task is empty'' None (Some 400)"

section \<open>Response interpreter\<close>

text \<open>White space as \<open>String.prototype.trim\<close> and the regular expression class \<open>\s\<close> see it,
  among the characters below 256: tab, line feed, vertical tab, form feed, carriage return,
  space and the no-break space.\<close>

definition isWhitespace :: "char \<Rightarrow> bool" where
  "isWhitespace c = (of_char c \<in> set [9, 10, 11, 12, 13, 32, 160 :: nat])"

definition trim :: "string \<Rightarrow> string" where
  "trim s = rev (dropWhile isWhitespace (rev (dropWhile isWhitespace s)))"

text \<open>\<open>indexOf\<close>: the position of the first occurrence of a text, if there is one.\<close>

fun indexOf :: "string \<Rightarrow> string \<Rightarrow> nat option" where
  "indexOf pat [] = (if pat = [] then Some 0 else None)"
| "indexOf pat (c # cs) =
     (if prefix pat (c # cs) then Some 0
      else (case indexOf pat cs of None \<Rightarrow> None | Some i \<Rightarrow> Some (Suc i)))"

text \<open>The first group of the first match of the regular expression
  \<open>opening \s* ([\s\S]*?) ```\<close>, for a literal opening: the match starts at the leftmost
  position where the opening stands and a closing fence follows; the white space after the
  opening is skipped and the group runs up to the next closing fence.\<close>

definition fence_at :: "string \<Rightarrow> string \<Rightarrow> string option" where
  "fence_at opening s =
     (if prefix opening s then
        (let body = dropWhile isWhitespace (drop (length opening) s)
         in case indexOf ''```'' body of None \<Rightarrow> None | Some k \<Rightarrow> Some (take k body))
      else None)"

fun fence_match :: "string \<Rightarrow> string \<Rightarrow> string option" where
  "fence_match opening [] = fence_at opening []"
| "fence_match opening (c # cs) =
     (case fence_at opening (c # cs) of
        Some g \<Rightarrow> Some g
      | None \<Rightarrow> fence_match opening cs)"

text \<open>\<open>JSON.parse\<close> followed by \<open>DiscriminatorFeedbackSchema.parse\<close> is a parameter \<open>decode\<close>:
  it yields \<open>None\<close> where either of the two throws. The schema constrains the score to lie
  between 0 and 1; the other constraints are those of the record type.\<close>

definition schema_valid :: "Feedback \<Rightarrow> bool" where
  "schema_valid fb = (0 \<le> score fb \<and> score fb \<le> 1)"

definition tryParseDirectJson :: "(string \<Rightarrow> Feedback option) \<Rightarrow> string \<Rightarrow> Feedback option" where
  "tryParseDirectJson decode response = decode (trim response)"

definition tryParseCodeBlock :: "(string \<Rightarrow> Feedback option) \<Rightarrow> string \<Rightarrow> Feedback option" where
  "tryParseCodeBlock decode response =
     (let jsonBlock =
            (case fence_match ''```json'' response of
               None \<Rightarrow> None
             | Some g \<Rightarrow> if g = [] then None else decode (trim g))
      in case jsonBlock of
           Some validated \<Rightarrow> Some validated
         | None \<Rightarrow>
             (case fence_match ''```'' response of
                None \<Rightarrow> None
              | Some g \<Rightarrow> if g = [] then None else decode (trim g)))"

text \<open>The scan of \<open>tryExtractBalancedJson\<close> from the first opening brace: the index, counted
  from where the scan starts, at which the depth comes back to 0.\<close>

fun matching_brace :: "int \<Rightarrow> nat \<Rightarrow> string \<Rightarrow> nat option" where
  "matching_brace depth i [] = None"
| "matching_brace depth i (c # cs) =
     (if c = CHR ''{'' then matching_brace (depth + 1) (Suc i) cs
      else if c = CHR ''}'' then
        (if depth - 1 = 0 then Some i else matching_brace (depth - 1) (Suc i) cs)
      else matching_brace depth (Suc i) cs)"

definition tryExtractBalancedJson :: "(string \<Rightarrow> Feedback option) \<Rightarrow> string \<Rightarrow> Feedback option" where
  "tryExtractBalancedJson decode response =
     (case indexOf ''{'' response of
        None \<Rightarrow> None
      | Some startIndex \<Rightarrow>
          (case matching_brace 0 startIndex (drop startIndex response) of
             None \<Rightarrow> None
           | Some endIndex \<Rightarrow>
               decode (take (endIndex + 1 - startIndex) (drop startIndex response))))"

definition createFallbackFeedback :: "string \<Rightarrow> Feedback" where
  "createFallbackFeedback rawResponse =
     \<lparr>passed = False,
      score = lit (3 / 10),
      issues = [''Evaluation response could not be parsed'',
                ''The evaluator did not return valid JSON feedback''],
      suggestions = ''The system will retry the evaluation. If this persists, the workflow may need manual review.'',
      reasoning = Some (''Parse error occurred while processing the discriminator response. '' @
                        ''This is a system issue, not a reflection of the content quality.'')\<rparr>"

definition parseResponse :: "(string \<Rightarrow> Feedback option) \<Rightarrow> string \<Rightarrow> Feedback" where
  "parseResponse decode response =
     (case tryParseDirectJson decode response of
        Some result \<Rightarrow> result
      | None \<Rightarrow>
          (case tryParseCodeBlock decode response of
             Some result \<Rightarrow> result
           | None \<Rightarrow>
               (case tryExtractBalancedJson decode response of
                  Some result \<Rightarrow> result
                | None \<Rightarrow> createFallbackFeedback response)))"

text \<open>A payload and a decoder that knows this payload only, for the examples, and the
  fallback feedback written out.\<close>

definition example_payload :: string where
  \<open>example_payload = ''{"passed":true,"score":0.9,"issues":[],"suggestions":"ok"}''\<close>

definition example_feedback :: Feedback where
  "example_feedback =
     \<lparr>passed = True, score = lit (9 / 10), issues = [], suggestions = ''ok'', reasoning = None\<rparr>"

definition example_decode :: "string \<Rightarrow> Feedback option" where
  "example_decode s = (if s = example_payload then Some example_feedback else None)"

definition fixed_fallback :: Feedback where
  "fixed_fallback =
     \<lparr>passed = False,
      score = lit (3 / 10),
      issues = [''Evaluation response could not be parsed'',
                ''The evaluator did not return valid JSON feedback''],
      suggestions = ''The system will retry the evaluation. If this persists, the workflow may need manual review.'',
      reasoning = Some ''Parse error occurred while processing the discriminator response. This is a system issue, not a reflection of the content quality.''\<rparr>"

section \<open>State store and job queue\<close>

text \<open>The fast-tier snapshot \<open>WorkflowState\<close> of \<open>workflow-state.store.ts\<close>, with the fields the
  store itself reads or writes; the store serialises a snapshot as a whole.\<close>

datatype WorkflowStatus = Pending | Running | Completed | Failed | Cancelled_status

record WorkflowState =
  ws_id :: string
  ws_status :: WorkflowStatus
  ws_task :: string
  ws_currentIteration :: nat
  ws_iterations :: "IterationState list"
  ws_updatedAt :: string

text \<open>\<open>InMemoryStore\<close>: a \<open>Map\<close> from keys to entries; \<open>expireAt\<close> is in milliseconds, \<open>None\<close>
  for \<open>null\<close>. The clock reading \<open>Date.now()\<close> of an operation is its argument \<open>now\<close>. Each
  operation returns its result and the map it leaves.\<close>

record StoreEntry =
  entry_value :: string
  entry_expireAt :: "int option"

type_synonym InMemoryStore = "string \<rightharpoonup> StoreEntry"

definition entry_expired :: "StoreEntry \<Rightarrow> int \<Rightarrow> bool" where
  "entry_expired item now =
     (case entry_expireAt item of None \<Rightarrow> False | Some expireAt \<Rightarrow> expireAt < now)"

definition mem_get :: "InMemoryStore \<Rightarrow> string \<Rightarrow> int \<Rightarrow> string option \<times> InMemoryStore" where
  "mem_get store key now =
     (case store key of
        None \<Rightarrow> (None, store)
      | Some item \<Rightarrow>
          if entry_expired item now then (None, store(key := None))
          else (Some (entry_value item), store))"

definition mem_set :: "InMemoryStore \<Rightarrow> string \<Rightarrow> string \<Rightarrow> int option \<Rightarrow> int \<Rightarrow> InMemoryStore" where
  "mem_set store key v ttlSeconds now =
     store(key \<mapsto> \<lparr>entry_value = v,
                    entry_expireAt =
                      (case ttlSeconds of None \<Rightarrow> None | Some ttl \<Rightarrow> Some (now + ttl * 1000))\<rparr>)"

definition mem_del :: "InMemoryStore \<Rightarrow> string \<Rightarrow> nat \<times> InMemoryStore" where
  "mem_del store key = ((if store key \<noteq> None then 1 else 0), store(key := None))"

definition mem_exists :: "InMemoryStore \<Rightarrow> string \<Rightarrow> int \<Rightarrow> nat \<times> InMemoryStore" where
  "mem_exists store key now =
     (case store key of
        None \<Rightarrow> (0, store)
      | Some item \<Rightarrow>
          if entry_expired item now then (0, store(key := None)) else (1, store))"

text \<open>Modelled from the spec: the networked backing (the Redis server that the client
  talks to is no part of the repository) is the fast tier as the specification describes
  it, a key-value store whose entries are bounded by a time to live. An entry past its
  expiry time is absent for every command. \<open>SETEX\<close> rejects a time to live that is not
  positive.\<close>

type_synonym RedisServer = "string \<rightharpoonup> string \<times> int option"

definition redis_live :: "RedisServer \<Rightarrow> string \<Rightarrow> int \<Rightarrow> string option" where
  "redis_live server key now =
     (case server key of
        None \<Rightarrow> None
      | Some (v, None) \<Rightarrow> Some v
      | Some (v, Some expireAt) \<Rightarrow> if expireAt < now then None else Some v)"

definition redis_get :: "RedisServer \<Rightarrow> string \<Rightarrow> int \<Rightarrow> string option" where
  "redis_get server key now = redis_live server key now"

definition redis_setex :: "RedisServer \<Rightarrow> string \<Rightarrow> int \<Rightarrow> string \<Rightarrow> int \<Rightarrow> RedisServer option" where
  "redis_setex server key ttl v now =
     (if ttl \<le> 0 then None else Some (server(key \<mapsto> (v, Some (now + ttl * 1000)))))"

definition redis_set :: "RedisServer \<Rightarrow> string \<Rightarrow> string \<Rightarrow> RedisServer" where
  "redis_set server key v = server(key \<mapsto> (v, None))"

definition redis_del :: "RedisServer \<Rightarrow> string \<Rightarrow> int \<Rightarrow> nat \<times> RedisServer" where
  "redis_del server key now =
     ((if redis_live server key now \<noteq> None then 1 else 0), server(key := None))"

definition redis_exists :: "RedisServer \<Rightarrow> string \<Rightarrow> int \<Rightarrow> nat" where
  "redis_exists server key now = (if redis_live server key now \<noteq> None then 1 else 0)"

text \<open>\<open>ResilientRedisClient\<close>. The argument \<open>reachable\<close> of an operation says whether its
  network call succeeds; when it throws, the \<open>catch\<close> branch serves the operation from the
  fallback.\<close>

record ResilientRedisClient =
  usesFallback :: bool
  redis :: RedisServer
  fallback :: InMemoryStore

definition client_get ::
  "ResilientRedisClient \<Rightarrow> string \<Rightarrow> int \<Rightarrow> bool \<Rightarrow> string option \<times> ResilientRedisClient" where
  "client_get c key now reachable =
     (if usesFallback c \<or> \<not> reachable
      then (case mem_get (fallback c) key now of (r, m) \<Rightarrow> (r, c\<lparr>fallback := m\<rparr>))
      else (redis_get (redis c) key now, c))"

definition client_set ::
  "ResilientRedisClient \<Rightarrow> string \<Rightarrow> string \<Rightarrow> int option \<Rightarrow> int \<Rightarrow> bool \<Rightarrow> ResilientRedisClient" where
  "client_set c key v ttlSeconds now reachable =
     (if usesFallback c \<or> \<not> reachable
      then c\<lparr>fallback := mem_set (fallback c) key v ttlSeconds now\<rparr>
      else
        (case (case ttlSeconds of
                 None \<Rightarrow> Some (redis_set (redis c) key v)
               | Some ttl \<Rightarrow>
                   if ttl \<noteq> 0 then redis_setex (redis c) key ttl v now
                   else Some (redis_set (redis c) key v)) of
           Some server \<Rightarrow>
             c\<lparr>redis := server, fallback := mem_set (fallback c) key v ttlSeconds now\<rparr>
         | None \<Rightarrow> c\<lparr>fallback := mem_set (fallback c) key v ttlSeconds now\<rparr>))"

definition client_del ::
  "ResilientRedisClient \<Rightarrow> string \<Rightarrow> int \<Rightarrow> bool \<Rightarrow> nat \<times> ResilientRedisClient" where
  "client_del c key now reachable =
     (if usesFallback c \<or> \<not> reachable
      then (case mem_del (fallback c) key of (r, m) \<Rightarrow> (r, c\<lparr>fallback := m\<rparr>))
      else
        (case redis_del (redis c) key now of
           (result, server) \<Rightarrow> (result, c\<lparr>redis := server, fallback := snd (mem_del (fallback c) key)\<rparr>)))"

definition client_exists ::
  "ResilientRedisClient \<Rightarrow> string \<Rightarrow> int \<Rightarrow> bool \<Rightarrow> bool \<times> ResilientRedisClient" where
  "client_exists c key now reachable =
     (if usesFallback c \<or> \<not> reachable
      then (case mem_exists (fallback c) key now of (r, m) \<Rightarrow> (r = 1, c\<lparr>fallback := m\<rparr>))
      else (redis_exists (redis c) key now = 1, c))"

text \<open>\<open>WorkflowStateStore\<close>: its two settings, and \<open>JSON.stringify\<close> and \<open>JSON.parse\<close> on
  snapshots as the parameters \<open>stringify\<close> and \<open>parse\<close> (\<open>None\<close> where \<open>JSON.parse\<close> throws).\<close>

record WorkflowStateStore =
  ttlSeconds :: int
  keyPrefix :: string

definition DEFAULT_TTL_SECONDS :: int where
  "DEFAULT_TTL_SECONDS = 24 * 60 * 60"

definition DEFAULT_KEY_PREFIX :: string where
  "DEFAULT_KEY_PREFIX = ''workflow:state:''"

definition default_store :: WorkflowStateStore where
  "default_store = \<lparr>ttlSeconds = DEFAULT_TTL_SECONDS, keyPrefix = DEFAULT_KEY_PREFIX\<rparr>"

definition getKey :: "WorkflowStateStore \<Rightarrow> string \<Rightarrow> string" where
  "getKey store workflowId = keyPrefix store @ workflowId"

definition store_save ::
  "WorkflowStateStore \<Rightarrow> (WorkflowState \<Rightarrow> string) \<Rightarrow> ResilientRedisClient \<Rightarrow> WorkflowState
     \<Rightarrow> int \<Rightarrow> bool \<Rightarrow> ResilientRedisClient" where
  "store_save store stringify c state now reachable =
     client_set c (getKey store (ws_id state)) (stringify state) (Some (ttlSeconds store)) now reachable"

definition store_get ::
  "WorkflowStateStore \<Rightarrow> (string \<Rightarrow> WorkflowState option) \<Rightarrow> ResilientRedisClient \<Rightarrow> string
     \<Rightarrow> int \<Rightarrow> bool \<Rightarrow> WorkflowState option \<times> ResilientRedisClient" where
  "store_get store parse c workflowId now reachable =
     (case client_get c (getKey store workflowId) now reachable of
        (None, c') \<Rightarrow> (None, c')
      | (Some data, c') \<Rightarrow> (if data = [] then None else parse data, c'))"

definition store_delete ::
  "WorkflowStateStore \<Rightarrow> ResilientRedisClient \<Rightarrow> string \<Rightarrow> int \<Rightarrow> bool
     \<Rightarrow> bool \<times> ResilientRedisClient" where
  "store_delete store c workflowId now reachable =
     (case client_del c (getKey store workflowId) now reachable of
        (deleted, c') \<Rightarrow> (0 < deleted, c'))"

definition store_exists ::
  "WorkflowStateStore \<Rightarrow> ResilientRedisClient \<Rightarrow> string \<Rightarrow> int \<Rightarrow> bool
     \<Rightarrow> bool \<times> ResilientRedisClient" where
  "store_exists store c workflowId now reachable =
     client_exists c (getKey store workflowId) now reachable"

text \<open>A sequence of store operations, each with the clock reading at which it runs, and what
  the caller observes of each.\<close>

datatype store_op = Save WorkflowState | Get string | Delete string | Exists string

datatype observed = Saved | Got "WorkflowState option" | Deleted bool | Existed bool

fun run_ops ::
  "WorkflowStateStore \<Rightarrow> (WorkflowState \<Rightarrow> string) \<Rightarrow> (string \<Rightarrow> WorkflowState option)
     \<Rightarrow> ResilientRedisClient \<Rightarrow> (store_op \<times> int) list \<Rightarrow> observed list" where
  "run_ops store stringify parse c [] = []"
| "run_ops store stringify parse c ((Save state, now) # ops) =
     Saved # run_ops store stringify parse (store_save store stringify c state now True) ops"
| "run_ops store stringify parse c ((Get workflowId, now) # ops) =
     (case store_get store parse c workflowId now True of
        (r, c') \<Rightarrow> Got r # run_ops store stringify parse c' ops)"
| "run_ops store stringify parse c ((Delete workflowId, now) # ops) =
     (case store_delete store c workflowId now True of
        (r, c') \<Rightarrow> Deleted r # run_ops store stringify parse c' ops)"
| "run_ops store stringify parse c ((Exists workflowId, now) # ops) =
     (case store_exists store c workflowId now True of
        (r, c') \<Rightarrow> Existed r # run_ops store stringify parse c' ops)"

text \<open>A client connected to an empty server, and a client that has switched to its
  fallback.\<close>

definition networked_client :: ResilientRedisClient where
  "networked_client = \<lparr>usesFallback = False, redis = Map.empty, fallback = Map.empty\<rparr>"

definition fallback_client :: ResilientRedisClient where
  "fallback_client = \<lparr>usesFallback = True, redis = Map.empty, fallback = Map.empty\<rparr>"

definition example_snapshot :: WorkflowState where
  "example_snapshot =
     \<lparr>ws_id = ''w1'', ws_status = Running, ws_task = ''task'', ws_currentIteration = 0,
      ws_iterations = [], ws_updatedAt = ''2025-01-01T00:00:00.000Z''\<rparr>"

text \<open>What a queued job shares with the rest of the process while its worker runs: the status
  of its snapshot in the state store (\<open>None\<close> when there is no snapshot) and the \<open>cancelled\<close>
  flag of the job's progress record.\<close>

record JobWorld =
  stored_status :: "WorkflowStatus option"
  progress_cancelled :: bool

text \<open>The \<open>cancel_workflow\<close> tool on a job that is being processed: a snapshot that is already
  terminal is left alone; otherwise \<open>stateStore.cancel\<close> writes the status \<open>cancelled\<close> and
  \<open>queue.cancelJob\<close> marks the active job's progress (``the worker should check for this'').\<close>

definition cancel_workflow :: "JobWorld \<Rightarrow> JobWorld" where
  "cancel_workflow w =
     (case stored_status w of
        Some Completed \<Rightarrow> w
      | Some Failed \<Rightarrow> w
      | Some Cancelled_status \<Rightarrow> w
      | Some other \<Rightarrow> w\<lparr>stored_status := Some Cancelled_status, progress_cancelled := True\<rparr>
      | None \<Rightarrow> w\<lparr>progress_cancelled := True\<rparr>)"

definition shouldCancelJob :: "JobWorld \<Rightarrow> bool" where
  "shouldCancelJob w = (progress_cancelled w = True)"

text \<open>\<open>stateStore.complete\<close> and \<open>stateStore.fail\<close> go through \<open>update\<close>: an existing snapshot
  gets the new status whatever its status was; a missing one stays missing.\<close>

definition stateStore_complete :: "JobWorld \<Rightarrow> JobWorld" where
  "stateStore_complete w =
     (case stored_status w of None \<Rightarrow> w | Some current \<Rightarrow> w\<lparr>stored_status := Some Completed\<rparr>)"

definition stateStore_fail :: "JobWorld \<Rightarrow> JobWorld" where
  "stateStore_fail w =
     (case stored_status w of None \<Rightarrow> w | Some current \<Rightarrow> w\<lparr>stored_status := Some Failed\<rparr>)"

text \<open>\<open>processWorkflowJob\<close>: the snapshot is saved as running and the progress record is
  replaced; the orchestrator, created with the default stop conditions, runs; then the
  snapshot is completed, or failed when the orchestrator threw.\<close>

definition job_start :: "JobWorld \<Rightarrow> JobWorld" where
  "job_start w = w\<lparr>stored_status := Some Running, progress_cancelled := False\<rparr>"

definition job_finish ::
  "WorkflowExecutionError + WorkflowResult \<Rightarrow> JobWorld
     \<Rightarrow> (WorkflowExecutionError + WorkflowResult) \<times> JobWorld" where
  "job_finish outcome w =
     (case outcome of
        Inr result \<Rightarrow> (Inr result, stateStore_complete w)
      | Inl e \<Rightarrow> (Inl e, stateStore_fail w))"

definition processWorkflowJob ::
  "Runners \<Rightarrow> ExecuteParams \<Rightarrow> JobWorld \<Rightarrow> (WorkflowExecutionError + WorkflowResult) \<times> JobWorld" where
  "processWorkflowJob rs params w =
     job_finish (execute rs (RalphOrchestrator_stopConditions None) params) (job_start w)"

text \<open>The rest of a job from the head of an iteration on, in a world that other requests
  may have changed since the job started.\<close>

definition job_resume ::
  "Runners \<Rightarrow> ExecuteParams \<Rightarrow> nat \<Rightarrow> LoopState \<Rightarrow> JobWorld
     \<Rightarrow> (WorkflowExecutionError + WorkflowResult) \<times> JobWorld" where
  "job_resume rs params iteration st w =
     job_finish
       (execute_finish (execute_loop rs (RalphOrchestrator_stopConditions None) params iteration st))
       w"

definition fresh_world :: JobWorld where
  "fresh_world = \<lparr>stored_status = None, progress_cancelled = False\<rparr>"

definition after_first_iteration :: LoopState where
  "after_first_iteration =
     \<lparr>currentOutput = ''draft'', lastFeedback = Some (feedback_of False (lit (1 / 2))),
      stopReason = Max_iterations, history = [example_record 1 (lit (1 / 2))]\<rparr>"

section \<open>Sanity of the number model\<close>

text \<open>The doubles nearest to 0.1 and 0.01, and the well-known sum 0.1 + 0.2, which is one
  unit in the last place above the double nearest to 0.3.\<close>

lemma lit_tenth: "lit (1 / 10) = 3602879701896397 / 36028797018963968"
  by code_simp

lemma lit_hundredth: "lit (1 / 100) = 5764607523034235 / 576460752303423488"
  by code_simp

lemma fadd_tenth_fifth: "fadd (lit (1 / 10)) (lit (2 / 10)) = lit (3 / 10) + 1 / 2 ^ 54"
  by code_simp

text \<open>\<open>ilog2\<close> computes the binary exponent; \<open>rnd\<close> moves a number by at most half a unit
  in the last place; and it leaves an integer of fewer than 54 bits, scaled by a power of
  two, as it is.\<close>

lemma pow2_powi: "pow2 q = 2 powi q"
  by (simp add: pow2_def power_int_def inverse_eq_divide power_one_over)

lemma pow2_pos: "0 < pow2 q"
  by (simp add: pow2_powi)







lemma round_half_even_nearest: "\<bar>of_int (round_half_even y) - y\<bar> \<le> 1 / 2"
proof -
  define d where "d = y - of_int \<lfloor>y\<rfloor>"
  have d: "0 \<le> d" "d < 1" unfolding d_def by linarith+
  have r: "round_half_even y =
      (if d < 1 / 2 then \<lfloor>y\<rfloor> else if 1 / 2 < d then \<lfloor>y\<rfloor> + 1
       else if even \<lfloor>y\<rfloor> then \<lfloor>y\<rfloor> else \<lfloor>y\<rfloor> + 1)"
    by (simp add: round_half_even_def Let_def d_def)
  have down: "\<bar>of_int \<lfloor>y\<rfloor> - y\<bar> = d" using d by (simp add: d_def)
  have up: "\<bar>of_int (\<lfloor>y\<rfloor> + 1) - y\<bar> = 1 - d" using d by (simp add: d_def)
  show ?thesis
  proof (cases "d < 1 / 2")
    case True
    then show ?thesis using r down by simp
  next
    case False
    note nl = this
    show ?thesis
    proof (cases "1 / 2 < d")
      case True
      then have "round_half_even y = \<lfloor>y\<rfloor> + 1" using r nl by simp
      then show ?thesis using up True by simp
    next
      case False
      then have h: "d = 1 / 2" using nl by simp
      then have "round_half_even y = \<lfloor>y\<rfloor> \<or> round_half_even y = \<lfloor>y\<rfloor> + 1"
        using r by simp
      then show ?thesis using up down h by auto
    qed
  qed
qed


lemma rnd_nearest:
  assumes "x \<noteq> 0"
  shows "\<bar>rnd x - x\<bar> \<le> pow2 (max (ilog2 x - 52) (- 1074)) / 2"
proof -
  let ?q = "max (ilog2 x - 52) (- 1074)"
  have p: "0 < pow2 ?q" by (rule pow2_pos)
  have "rnd x - x = (of_int (round_half_even (x / pow2 ?q)) - x / pow2 ?q) * pow2 ?q"
    using assms p by (simp add: rnd_def Let_def algebra_simps)
  then have "\<bar>rnd x - x\<bar> = \<bar>of_int (round_half_even (x / pow2 ?q)) - x / pow2 ?q\<bar> * pow2 ?q"
    using p by (simp add: abs_mult)
  also have "\<dots> \<le> (1 / 2) * pow2 ?q"
    using round_half_even_nearest [of "x / pow2 ?q"] p by (simp add: mult_right_mono)
  finally show ?thesis by simp
qed

section \<open>Threshold\<close>

text \<open>
  C1. The threshold condition stops exactly when the current iteration is marked as passed
  and its score is at least the score threshold; whatever the rest of the context, a score
  of 0.9 with passed = false and a threshold of 0.7 does not stop.
\<close>

theorem threshold_stops_iff_passed_and_score:
  "shouldStop (evaluate ThresholdStopCondition context)
     = (currentPassed context \<and> scoreThreshold context \<le> currentScore context)
   \<and> \<not> shouldStop (evaluate ThresholdStopCondition
         (context\<lparr>currentScore := lit (9 / 10), currentPassed := False,
                   scoreThreshold := lit (7 / 10)\<rparr>))"
  by (simp add: ThresholdStopCondition_def stop_with_def continue_def)

section \<open>Composite\<close>

text \<open>Inside a composite, the verdict is that of the first member that reports a stop, reason
  or no reason.\<close>

lemma composite_first_stop:
  assumes "list_all (\<lambda>c. \<not> shouldStop (evaluate c ctx)) before"
    and "shouldStop (evaluate condition ctx)"
  shows "evaluate (CompositeStopCondition (before @ condition # after)) ctx = evaluate condition ctx"
  using assms by (induction before) (simp_all add: CompositeStopCondition_def Let_def)

lemma composite_never_stops:
  assumes "list_all (\<lambda>c. \<not> shouldStop (evaluate c ctx)) conditions"
  shows "\<not> shouldStop (evaluate (CompositeStopCondition conditions) ctx)"
  using assms by (induction conditions) (simp_all add: CompositeStopCondition_def Let_def continue_def)

section \<open>Stagnation\<close>

lemma stagnation_short_history:
  "length (iterations context) < N + 1 \<Longrightarrow> \<not> shouldStop (stagnation_evaluate N t context)"
  by (simp add: stagnation_evaluate_def continue_def)

lemma stagnation_full_window:
  assumes "N + 1 \<le> length (iterations context)"
  shows "shouldStop (stagnation_evaluate N t context)
     = (\<forall>i. length (iterations context) - N \<le> i \<and> i < length (iterations context)
           \<longrightarrow> \<not> t < fsub (score_at context i)
                          (score_at context (length (iterations context) - (N + 1))))"
proof -
  let ?its = "iterations context"
  let ?n = "length ?its"
  let ?k = "?n - (N + 1)"
  have "length (drop ?k ?its) = N + 1" using assms by simp
  then obtain b rest where dr: "drop ?k ?its = b # rest"
    by (cases "drop ?k ?its") auto
  have b: "b = ?its ! ?k" using dr assms
    by (metis Cons_nth_drop_Suc drop_all list.inject list.distinct(1) linorder_not_le)
  have rest: "rest = drop (Suc ?k) ?its" using dr
    by (metis drop_Suc tl_drop list.sel(3))
  have k1: "Suc ?k = ?n - N" using assms by simp
  have "shouldStop (stagnation_evaluate N t context)
      = (\<not> list_ex (\<lambda>s. t < fsub s (score (feedback b)))
              (map (\<lambda>iter. score (feedback iter)) rest))"
    using assms dr by (simp add: stagnation_evaluate_def continue_def stop_with_def Let_def)
  also have "\<dots> = (\<forall>x \<in> set rest. \<not> t < fsub (score (feedback x)) (score (feedback b)))"
    by (auto simp: list_ex_iff)
  also have "\<dots> = (\<forall>i. ?n - N \<le> i \<and> i < ?n
                     \<longrightarrow> \<not> t < fsub (score_at context i) (score_at context ?k))"
  proof -
    have "set rest = {?its ! i | i. ?n - N \<le> i \<and> i < ?n}"
      unfolding rest k1
      by (auto simp: set_conv_nth)
         (metis add.commute less_diff_conv add_diff_inverse_nat not_le)+
    then show ?thesis by (auto simp: score_at_def b)
  qed
  finally show ?thesis .
qed

text \<open>
  The subtraction behind the first example of the specification: the double nearest to 0.51
  minus 0.5 is 0.010000000000000009 (exactly 45035996273705 / 2^52), which is greater than
  the double nearest to 0.01.
\<close>

lemma stagnation_example_difference:
  "fsub (lit (51 / 100)) (lit (1 / 2)) = 45035996273705 / 4503599627370496
   \<and> lit (1 / 100) < fsub (lit (51 / 100)) (lit (1 / 2))"
  by code_simp

text \<open>
  C2, as stated, fails. With window 3 and improvement threshold 0.01 the scores
  0.50, 0.51, 0.505, 0.509 do not stop the loop: \<open>0.51 - 0.50 > 0.01\<close> is true in double
  arithmetic.
\<close>

theorem stagnation_spec_example_counterexample:
  "\<not> shouldStop (evaluate (StagnationStopCondition (Some 3) (Some (lit (1 / 100))))
       (context_of 10 (lit (7 / 10))
          [lit (1 / 2), lit (51 / 100), lit (101 / 200), lit (509 / 1000)]))"
  by code_simp

text \<open>
  C2, amended. With window size N (default 3) and improvement threshold t (default the
  double 0.01): fewer than N + 1 recorded iterations never stop; otherwise, with n recorded
  iterations, the baseline is the score of position n - N - 1 (the oldest of the last
  N + 1), and the condition stops exactly when no later score s of the window has
  \<open>s - baseline > t\<close>, the subtraction being the rounded subtraction of doubles.
  The scores 0.50, 0.50, 0.50, 0.62 do not stop, the scores 0.50, 0.51, 0.505, 0.509 do not
  stop either, and the scores 0.50, 0.505, 0.505, 0.509 stop.
\<close>

theorem stagnation_window_rule:
  "(length (iterations context) < N + 1 \<longrightarrow> \<not> shouldStop (stagnation_evaluate N t context))
   \<and> (N + 1 \<le> length (iterations context) \<longrightarrow>
        shouldStop (stagnation_evaluate N t context)
        = (\<forall>i. length (iterations context) - N \<le> i \<and> i < length (iterations context)
             \<longrightarrow> \<not> t < fsub (score_at context i)
                            (score_at context (length (iterations context) - (N + 1)))))
   \<and> evaluate (StagnationStopCondition None None) = stagnation_evaluate 3 (lit (1 / 100))
   \<and> \<not> shouldStop (evaluate (StagnationStopCondition None None)
         (context_of 10 (lit (7 / 10)) [lit (1 / 2), lit (1 / 2), lit (1 / 2), lit (62 / 100)]))
   \<and> \<not> shouldStop (evaluate (StagnationStopCondition None None)
         (context_of 10 (lit (7 / 10))
            [lit (1 / 2), lit (51 / 100), lit (101 / 200), lit (509 / 1000)]))
   \<and> shouldStop (evaluate (StagnationStopCondition None None)
         (context_of 10 (lit (7 / 10))
            [lit (1 / 2), lit (101 / 200), lit (101 / 200), lit (509 / 1000)]))"
proof -
  have a: "\<not> shouldStop (evaluate (StagnationStopCondition None None)
         (context_of 10 (lit (7 / 10)) [lit (1 / 2), lit (1 / 2), lit (1 / 2), lit (62 / 100)]))"
    by code_simp
  have b: "\<not> shouldStop (evaluate (StagnationStopCondition None None)
         (context_of 10 (lit (7 / 10))
            [lit (1 / 2), lit (51 / 100), lit (101 / 200), lit (509 / 1000)]))"
    by code_simp
  have c: "shouldStop (evaluate (StagnationStopCondition None None)
         (context_of 10 (lit (7 / 10))
            [lit (1 / 2), lit (101 / 200), lit (101 / 200), lit (509 / 1000)]))"
    by code_simp
  have d: "evaluate (StagnationStopCondition None None) = stagnation_evaluate 3 (lit (1 / 100))"
    by (simp add: StagnationStopCondition_def)
  show ?thesis
    using a b c d stagnation_short_history [of "context" N t] stagnation_full_window [of N "context" t]
    by blast
qed

theorem stagnation_window_rule_witness:
  "length (iterations (context_of 10 (lit (7 / 10)) [lit (1 / 2), lit (1 / 2)])) < 3 + 1
   \<and> \<not> shouldStop (stagnation_evaluate 3 (lit (1 / 100))
          (context_of 10 (lit (7 / 10)) [lit (1 / 2), lit (1 / 2)]))
   \<and> 3 + 1 \<le> length (iterations (context_of 10 (lit (7 / 10))
          [lit (1 / 2), lit (1 / 2), lit (1 / 2), lit (62 / 100)]))
   \<and> (\<exists>i. 1 \<le> i \<and> i < 4 \<and> lit (1 / 100) < fsub
          (score_at (context_of 10 (lit (7 / 10))
             [lit (1 / 2), lit (1 / 2), lit (1 / 2), lit (62 / 100)]) i)
          (score_at (context_of 10 (lit (7 / 10))
             [lit (1 / 2), lit (1 / 2), lit (1 / 2), lit (62 / 100)]) 0))"
proof -
  let ?short = "context_of 10 (lit (7 / 10)) [lit (1 / 2), lit (1 / 2)]"
  let ?full = "context_of 10 (lit (7 / 10)) [lit (1 / 2), lit (1 / 2), lit (1 / 2), lit (62 / 100)]"
  have l2: "length (iterations ?short) < 3 + 1"
    by (simp add: context_of_def history_of_def)
  have l4: "length (iterations ?full) = 4"
    by (simp add: context_of_def history_of_def)
  have ns: "\<not> shouldStop (stagnation_evaluate 3 (lit (1 / 100)) ?full)"
    by code_simp
  from stagnation_window_rule [of ?short 3 "lit (1 / 100)"] l2
  have s: "\<not> shouldStop (stagnation_evaluate 3 (lit (1 / 100)) ?short)" by blast
  from stagnation_window_rule [of ?full 3 "lit (1 / 100)"] l4 ns
  have "\<exists>i. 1 \<le> i \<and> i < 4 \<and> lit (1 / 100) < fsub (score_at ?full i) (score_at ?full 0)"
    by auto
  with l2 l4 s show ?thesis by simp
qed

section \<open>Orchestrator loop\<close>

text \<open>The loop keeps the history numbered 1, 2, ... without gaps and never records more than
  \<open>maxIterations\<close> iterations, also when a runner throws.\<close>

lemma execute_loop_numbering:
  assumes "map number (history st) = [1..<iteration]" "1 \<le> iteration"
    "iteration \<le> params_maxIterations params + 1"
  shows "map number (history (fst (execute_loop rs sc params iteration st)))
           = [1..<Suc (length (history (fst (execute_loop rs sc params iteration st))))]
         \<and> length (history (fst (execute_loop rs sc params iteration st)))
             \<le> params_maxIterations params"
  using assms
proof (induction rs sc params iteration st rule: execute_loop.induct)
  case (1 rs sc params iteration st)
  have len: "length (history st) = iteration - 1"
    using "1.prems"(1) by (metis length_map length_upt)
  show ?case
  proof (cases "iteration \<le> params_maxIterations params")
    case False
    then show ?thesis using "1.prems" len
      by (subst (1 2 3) execute_loop.simps) (simp add: Suc_diff_Suc)
  next
    case True
    note le = this
    show ?thesis
    proof (cases "generator_run rs (params_task params) (lastFeedback st) iteration")
      case (Inl e)
      then show ?thesis using le "1.prems" len
        by (subst (1 2 3) execute_loop.simps) (simp add: Suc_diff_Suc)
    next
      case (Inr out)
      note g = this
      show ?thesis
      proof (cases "discriminator_run rs iteration out (params_criteria params) (params_task params)")
        case (Inl e)
        then show ?thesis using le g "1.prems" len
          by (subst (1 2 3) execute_loop.simps) (simp add: Suc_diff_Suc)
      next
        case (Inr fb)
        note d = this
        let ?st1 = "st\<lparr>currentOutput := out, lastFeedback := Some fb,
                       history := history st @
                         [\<lparr>number = iteration, generatorOutput = out, feedback = fb\<rparr>]\<rparr>"
        let ?res = "evaluate sc (stopContext_of params iteration (history ?st1) fb)"
        have num1: "map number (history ?st1) = [1..<iteration + 1]"
          using "1.prems" by simp
        show ?thesis
        proof (cases "shouldStop ?res")
          case True
          then show ?thesis using le g d "1.prems" len
            by (subst (1 2 3) execute_loop.simps) (simp add: Let_def Suc_diff_Suc)
        next
          case False
          have ih: "map number (history (fst (execute_loop rs sc params (iteration + 1) ?st1)))
             = [1..<Suc (length (history (fst (execute_loop rs sc params (iteration + 1) ?st1))))]
             \<and> length (history (fst (execute_loop rs sc params (iteration + 1) ?st1)))
                 \<le> params_maxIterations params"
            using "1.IH" [OF le g d refl refl False num1] le by simp
          have eq: "execute_loop rs sc params iteration st
                    = execute_loop rs sc params (iteration + 1) ?st1"
            using le g d False by (subst execute_loop.simps) (simp add: Let_def)
          show ?thesis unfolding eq using ih .
        qed
      qed
    qed
  qed
qed

text \<open>When the loop is left without a throw and something was recorded, the stop reason is
  the one the stop condition's verdict on the last recorded iteration leads to.\<close>

lemma execute_loop_reason:
  assumes "length (history st) = iteration - 1" "1 \<le> iteration"
    "stopReason st = Max_iterations"
    "history st \<noteq> [] \<Longrightarrow> \<not> shouldStop (evaluate sc (final_context params (history st)))"
    "execute_loop rs sc params iteration st = (st', None)"
    "history st' \<noteq> []"
  shows "stopReason st' = resolve_reason (evaluate sc (final_context params (history st')))"
  using assms
proof (induction rs sc params iteration st rule: execute_loop.induct)
  case (1 rs sc params iteration st)
  show ?case
  proof (cases "iteration \<le> params_maxIterations params")
    case False
    then have "st' = st" using "1.prems"(5) by (subst (asm) execute_loop.simps) simp
    then show ?thesis using "1.prems" by (simp add: resolve_reason_def)
  next
    case True
    note le = this
    show ?thesis
    proof (cases "generator_run rs (params_task params) (lastFeedback st) iteration")
      case (Inl e)
      then show ?thesis using le "1.prems"(5) by (subst (asm) execute_loop.simps) simp
    next
      case (Inr out)
      note g = this
      show ?thesis
      proof (cases "discriminator_run rs iteration out (params_criteria params) (params_task params)")
        case (Inl e)
        then show ?thesis using le g "1.prems"(5) by (subst (asm) execute_loop.simps) simp
      next
        case (Inr fb)
        note d = this
        let ?st1 = "st\<lparr>currentOutput := out, lastFeedback := Some fb,
                       history := history st @
                         [\<lparr>number = iteration, generatorOutput = out, feedback = fb\<rparr>]\<rparr>"
        let ?res = "evaluate sc (stopContext_of params iteration (history ?st1) fb)"
        have fc: "final_context params (history ?st1)
                  = stopContext_of params iteration (history ?st1) fb"
          using "1.prems"(1,2) by (simp add: final_context_def)
        show ?thesis
        proof (cases "shouldStop ?res")
          case True
          then have "st' = ?st1\<lparr>stopReason :=
                 (case reason ?res of Some r \<Rightarrow> r | None \<Rightarrow> Threshold_reached)\<rparr>"
            using le g d "1.prems"(5) by (subst (asm) execute_loop.simps) (simp add: Let_def)
          then show ?thesis using True fc by (simp add: resolve_reason_def)
        next
          case False
          have eq: "execute_loop rs sc params (iteration + 1) ?st1 = (st', None)"
            using le g d False "1.prems"(5)
            by (subst (asm) execute_loop.simps) (simp add: Let_def)
          have ns: "\<not> shouldStop (evaluate sc (final_context params (history ?st1)))"
            using False fc by simp
          show ?thesis
            using "1.IH" [OF le g d refl refl False _ _ _ _ eq "1.prems"(6)] "1.prems"(1,2,3) ns
            by simp
        qed
      qed
    qed
  qed
qed

lemma execute_Inr:
  assumes "execute rs sc params = Inr r"
  obtains st where "execute_loop rs sc params 1 initial_state = (st, None)"
    and "r = \<lparr>success = (stopReason st = Threshold_reached),
               final_output = currentOutput st,
               iterations_count = length (history st),
               finalScore = (case lastFeedback st of Some fb \<Rightarrow> score fb | None \<Rightarrow> 0),
               stop_reason = stopReason st,
               iterationHistory = history st\<rparr>"
  using assms by (auto simp: execute_def execute_finish_def split: prod.splits option.splits)

text \<open>
  C3. Whatever the runners answer and whatever stop condition is configured, the history
  that \<open>execute\<close> returns carries the iteration numbers 1, ..., N in order, N being the number
  of recorded iterations (the \<open>iterations\<close> count of the result), and N is at most
  \<open>maxIterations\<close>: with \<open>maxIterations\<close> = 3 there is never a fourth record.
\<close>

theorem execute_history_numbering:
  assumes "execute rs sc params = Inr r"
  shows "map number (iterationHistory r) = [1..<Suc (length (iterationHistory r))]
       \<and> iterations_count r = length (iterationHistory r)
       \<and> length (iterationHistory r) \<le> params_maxIterations params"
proof -
  from assms obtain st where run: "execute_loop rs sc params 1 initial_state = (st, None)"
    and r: "r = \<lparr>success = (stopReason st = Threshold_reached),
               final_output = currentOutput st,
               iterations_count = length (history st),
               finalScore = (case lastFeedback st of Some fb \<Rightarrow> score fb | None \<Rightarrow> 0),
               stop_reason = stopReason st,
               iterationHistory = history st\<rparr>"
    by (rule execute_Inr)
  have "map number (history (fst (execute_loop rs sc params 1 initial_state)))
           = [1..<Suc (length (history (fst (execute_loop rs sc params 1 initial_state))))]
         \<and> length (history (fst (execute_loop rs sc params 1 initial_state)))
             \<le> params_maxIterations params"
    by (rule execute_loop_numbering) (simp_all add: initial_state_def)
  then show ?thesis using run r by simp
qed

theorem execute_history_numbering_witness:
  "execute (constant_runners (feedback_of False (lit (1 / 2))))
      (RalphOrchestrator_stopConditions None) (example_params 3) = Inr three_rounds_result
   \<and> map number (iterationHistory three_rounds_result) = [1, 2, 3]
   \<and> iterations_count three_rounds_result = 3
   \<and> length (iterationHistory three_rounds_result) \<le> params_maxIterations (example_params 3)"
proof -
  have run: "execute (constant_runners (feedback_of False (lit (1 / 2))))
      (RalphOrchestrator_stopConditions None) (example_params 3) = Inr three_rounds_result"
    by code_simp
  have "length (iterationHistory three_rounds_result) = 3"
    by (simp add: three_rounds_result_def)
  with execute_history_numbering [OF run] run show ?thesis
    by (simp add: eval_nat_numeral upt_rec)
qed

text \<open>
  C10. When the configured stop condition, asked about the last recorded iteration, reports
  \<open>shouldStop\<close> = true and gives no reason, \<open>execute\<close> returns the stop reason
  \<open>threshold_reached\<close> and \<open>success\<close> = true, whatever the score and the passed flag of that
  iteration are.
\<close>

theorem absent_reason_defaults_to_threshold_reached:
  assumes "execute rs sc params = Inr r"
    and "iterationHistory r \<noteq> []"
    and "shouldStop (evaluate sc (final_context params (iterationHistory r)))"
    and "reason (evaluate sc (final_context params (iterationHistory r))) = None"
  shows "stop_reason r = Threshold_reached \<and> success r"
proof -
  from assms(1) obtain st where run: "execute_loop rs sc params 1 initial_state = (st, None)"
    and r: "r = \<lparr>success = (stopReason st = Threshold_reached),
               final_output = currentOutput st,
               iterations_count = length (history st),
               finalScore = (case lastFeedback st of Some fb \<Rightarrow> score fb | None \<Rightarrow> 0),
               stop_reason = stopReason st,
               iterationHistory = history st\<rparr>"
    by (rule execute_Inr)
  have "stopReason st = resolve_reason (evaluate sc (final_context params (history st)))"
    using execute_loop_reason [OF _ _ _ _ run] assms(2) r by (simp add: initial_state_def)
  then show ?thesis using assms(3,4) r by (simp add: resolve_reason_def)
qed

theorem absent_reason_defaults_to_threshold_reached_witness:
  "execute (constant_runners (feedback_of False (lit (1 / 10)))) reasonless_stop (example_params 3)
     = Inr reasonless_result
   \<and> iterationHistory reasonless_result \<noteq> []
   \<and> shouldStop (evaluate reasonless_stop
        (final_context (example_params 3) (iterationHistory reasonless_result)))
   \<and> reason (evaluate reasonless_stop
        (final_context (example_params 3) (iterationHistory reasonless_result))) = None
   \<and> stop_reason reasonless_result = Threshold_reached \<and> success reasonless_result
   \<and> \<not> passed (feedback (last (iterationHistory reasonless_result)))"
proof -
  have a: "execute (constant_runners (feedback_of False (lit (1 / 10)))) reasonless_stop
      (example_params 3) = Inr reasonless_result"
    by code_simp
  have b: "iterationHistory reasonless_result \<noteq> []"
    by (simp add: reasonless_result_def)
  have c: "shouldStop (evaluate reasonless_stop
        (final_context (example_params 3) (iterationHistory reasonless_result)))"
    by (simp add: reasonless_stop_def)
  have d: "reason (evaluate reasonless_stop
        (final_context (example_params 3) (iterationHistory reasonless_result))) = None"
    by (simp add: reasonless_stop_def)
  have e: "\<not> passed (feedback (last (iterationHistory reasonless_result)))"
    by (simp add: reasonless_result_def feedback_of_def example_record_def)
  from absent_reason_defaults_to_threshold_reached [OF a b c d] a b c d e show ?thesis by simp
qed

section \<open>Retry loop\<close>

text \<open>A run whose attempts before \<open>j\<close> are all retried and whose attempt \<open>j\<close> is decisive
  returns the outcome of attempt \<open>j\<close>, after \<open>j - 1\<close> full rounds.\<close>

lemma retry_loop_decisive:
  assumes "a \<le> j" "j \<le> maxAttempts (resolve_options options)"
    "\<forall>i. a \<le> i \<and> i < j \<longrightarrow> retried approx fn options random i"
    "decisive fn options j"
  shows "retry_loop approx fn options random a prev
         = (fn j, concat (map (round_events approx fn options random) [a..<j]) @ [Called j])"
  using assms
proof (induction "j - a" arbitrary: a prev)
  case 0
  then have aj: "a = j" by simp
  show ?case using "0.prems"(2,4) unfolding aj
    by (subst retry_loop.simps) (auto simp: decisive_def Let_def split: sum.splits)
next
  case (Suc n)
  then have lt: "a < j" by simp
  with Suc.prems(3) have r: "retried approx fn options random a" by simp
  then obtain e where e: "fn a = Inl e" "shouldRetry_of options e a"
    "call_onRetry options e a (delay_of approx options random a) = None"
    by (auto simp: retried_def split: sum.splits)
  have rec: "retry_loop approx fn options random (a + 1) e
         = (fn j, concat (map (round_events approx fn options random) [a + 1..<j]) @ [Called j])"
    using Suc.hyps(1) [of "a + 1" e] Suc.hyps(2) Suc.prems lt by simp
  have "retry_loop approx fn options random a prev
        = prepend (round_events approx fn options random a) (retry_loop approx fn options random (a + 1) e)"
    using e lt Suc.prems(2)
    by (subst retry_loop.simps)
       (simp add: Let_def delay_of_def round_events_def failure_of_def)
  then show ?case using rec lt by (simp add: prepend_def upt_conv_Cons)
qed

text \<open>A run whose callback throws in round \<open>j\<close> throws what the callback threw, right after
  the callback.\<close>

lemma retry_loop_callback_throws:
  assumes "a \<le> j" "j < maxAttempts (resolve_options options)"
    "\<forall>i. a \<le> i \<and> i < j \<longrightarrow> retried approx fn options random i"
    "fn j = Inl e" "shouldRetry_of options e j"
    "call_onRetry options e j (delay_of approx options random j) = Some t"
  shows "retry_loop approx fn options random a prev
         = (Inl t, concat (map (round_events approx fn options random) [a..<j])
                     @ Called j # onRetry_events options e j (delay_of approx options random j))"
  using assms
proof (induction "j - a" arbitrary: a prev)
  case 0
  then have aj: "a = j" by simp
  show ?case using "0.prems"(2,4,5,6) unfolding aj
    by (subst retry_loop.simps) (auto simp: Let_def delay_of_def)
next
  case (Suc n)
  then have lt: "a < j" by simp
  with Suc.prems(3) have r: "retried approx fn options random a" by simp
  then obtain e' where e: "fn a = Inl e'" "shouldRetry_of options e' a"
    "call_onRetry options e' a (delay_of approx options random a) = None"
    by (auto simp: retried_def split: sum.splits)
  have rec: "retry_loop approx fn options random (a + 1) e'
         = (Inl t, concat (map (round_events approx fn options random) [a + 1..<j])
                     @ Called j # onRetry_events options e j (delay_of approx options random j))"
    using Suc.hyps(1) [of "a + 1" e'] Suc.hyps(2) Suc.prems lt by simp
  have "retry_loop approx fn options random a prev
        = prepend (round_events approx fn options random a) (retry_loop approx fn options random (a + 1) e')"
    using e lt Suc.prems(2)
    by (subst retry_loop.simps)
       (simp add: Let_def delay_of_def round_events_def failure_of_def)
  then show ?case using rec lt by (simp add: prepend_def upt_conv_Cons)
qed

lemma count_rounds:
  assumes "opt_onRetry options = Some callback"
  shows "onRetry_count (concat (map (round_events approx fn options random) [a..<j]) @ rest) = (j - a) + onRetry_count rest"
    and "call_count (concat (map (round_events approx fn options random) [a..<j]) @ rest) = (j - a) + call_count rest"
proof -
  have "\<And>i. length (filter is_OnRetry (round_events approx fn options random i)) = 1"
    using assms by (simp add: round_events_def onRetry_events_def)
  moreover have "\<And>i. length (filter is_Called (round_events approx fn options random i)) = 1"
    using assms by (simp add: round_events_def onRetry_events_def)
  ultimately show "onRetry_count (concat (map (round_events approx fn options random) [a..<j]) @ rest) = (j - a) + onRetry_count rest"
    and "call_count (concat (map (round_events approx fn options random) [a..<j]) @ rest) = (j - a) + call_count rest"
    by (induction j) (auto simp: onRetry_count_def call_count_def)
qed

lemma retry_loop_unfold_retry:
  assumes "attempt < maxAttempts (resolve_options options)" "fn attempt = Inl e"
    "shouldRetry_of options e attempt"
    "call_onRetry options e attempt (delay_of approx options random attempt) = None"
  shows "retry_loop approx fn options random attempt prev
         = prepend (Called attempt # onRetry_events options e attempt (delay_of approx options random attempt)
                      @ [Slept (delay_of approx options random attempt)])
             (retry_loop approx fn options random (attempt + 1) e)"
  using assms by (subst retry_loop.simps) (simp add: Let_def delay_of_def)

lemma retry_loop_cases:
  obtains
    (stop) "snd (retry_loop approx fn options random attempt prev) = [] \<or>
            snd (retry_loop approx fn options random attempt prev) = [Called attempt]"
  | (thrown) e t where "fn attempt = Inl e" "attempt < maxAttempts (resolve_options options)"
      "shouldRetry_of options e attempt"
      "call_onRetry options e attempt (delay_of approx options random attempt) = Some t"
      "retry_loop approx fn options random attempt prev
        = (Inl t, Called attempt # onRetry_events options e attempt (delay_of approx options random attempt))"
  | (again) e where "fn attempt = Inl e" "attempt < maxAttempts (resolve_options options)"
      "shouldRetry_of options e attempt"
      "call_onRetry options e attempt (delay_of approx options random attempt) = None"
      "retry_loop approx fn options random attempt prev
         = prepend (Called attempt # onRetry_events options e attempt (delay_of approx options random attempt)
                      @ [Slept (delay_of approx options random attempt)])
             (retry_loop approx fn options random (attempt + 1) e)"
proof (cases "attempt \<le> maxAttempts (resolve_options options)")
  case False
  then have "snd (retry_loop approx fn options random attempt prev) = []"
    by (subst retry_loop.simps) (simp add: Let_def)
  then show ?thesis using stop by simp
next
  case le: True
  show ?thesis
  proof (cases "fn attempt")
    case (Inr v)
    then have "snd (retry_loop approx fn options random attempt prev) = [Called attempt]"
      using le by (subst retry_loop.simps) (simp add: Let_def)
    then show ?thesis using stop by simp
  next
    case (Inl e)
    show ?thesis
    proof (cases "attempt = maxAttempts (resolve_options options) \<or> \<not> shouldRetry_of options e attempt")
      case True
      then have "snd (retry_loop approx fn options random attempt prev) = [Called attempt]"
        using le Inl by (subst retry_loop.simps) (auto simp add: Let_def)
      then show ?thesis using stop by simp
    next
      case False
      then have lt: "attempt < maxAttempts (resolve_options options)"
        and sr: "shouldRetry_of options e attempt" using le by auto
      show ?thesis
      proof (cases "call_onRetry options e attempt (delay_of approx options random attempt)")
        case None
        have "retry_loop approx fn options random attempt prev
         = prepend (Called attempt # onRetry_events options e attempt (delay_of approx options random attempt)
                      @ [Slept (delay_of approx options random attempt)])
             (retry_loop approx fn options random (attempt + 1) e)"
          using lt Inl sr None by (rule retry_loop_unfold_retry)
        then show ?thesis by (rule again [OF Inl lt sr None])
      next
        case (Some t)
        have "retry_loop approx fn options random attempt prev
          = (Inl t, Called attempt # onRetry_events options e attempt (delay_of approx options random attempt))"
          using lt Inl sr Some by (subst retry_loop.simps) (simp add: Let_def delay_of_def)
        then show ?thesis using thrown [OF Inl lt sr Some] by simp
      qed
    qed
  qed
qed

lemma retry_loop_pre_wait_order:
  assumes "opt_onRetry options = Some callback"
  shows "pre_wait_order (snd (retry_loop approx fn options random attempt prev))"
proof (induction "maxAttempts (resolve_options options) + 1 - attempt" arbitrary: attempt prev)
  case 0
  then have "\<not> attempt \<le> maxAttempts (resolve_options options)" by simp
  then show ?case by (subst retry_loop.simps) (simp add: Let_def)
next
  case (Suc n)
  show ?case
  proof (cases rule: retry_loop_cases [of approx fn options random attempt prev])
    case stop
    then show ?thesis by auto
  next
    case (thrown e t)
    then show ?thesis using assms by (simp add: onRetry_events_def)
  next
    case (again e)
    have n: "n = maxAttempts (resolve_options options) + 1 - (attempt + 1)"
      using Suc.hyps(2) by simp
    have "pre_wait_order (snd (retry_loop approx fn options random (attempt + 1) e))"
      by (rule Suc.hyps(1) [OF n])
    then show ?thesis using again(5) assms by (simp add: onRetry_events_def prepend_def)
  qed
qed

lemma retry_loop_onRetry_arguments:
  assumes "OnRetry e a d \<in> set (snd (retry_loop approx fn options random attempt prev))"
  shows "attempt \<le> a \<and> a < maxAttempts (resolve_options options) \<and> fn a = Inl e
         \<and> d = calculateDelay approx a (resolve_options options) (random a)"
  using assms
proof (induction "maxAttempts (resolve_options options) + 1 - attempt" arbitrary: attempt prev)
  case 0
  then have "\<not> attempt \<le> maxAttempts (resolve_options options)" by simp
  then have "snd (retry_loop approx fn options random attempt prev) = []"
    by (subst retry_loop.simps) (simp add: Let_def)
  with "0.prems" show ?case by simp
next
  case (Suc n)
  show ?case
  proof (cases rule: retry_loop_cases [of approx fn options random attempt prev])
    case stop
    then show ?thesis using Suc.prems by auto
  next
    case (thrown e' t)
    then show ?thesis using Suc.prems
      by (auto simp: onRetry_events_def delay_of_def split: option.splits)
  next
    case (again e')
    from Suc.prems again(5)
    consider "OnRetry e a d \<in> set (onRetry_events options e' attempt (delay_of approx options random attempt))"
      | "OnRetry e a d \<in> set (snd (retry_loop approx fn options random (attempt + 1) e'))"
      by (auto simp: prepend_def)
    then show ?thesis
    proof cases
      case 1
      then show ?thesis using again(1,2)
        by (auto simp: onRetry_events_def delay_of_def split: option.splits)
    next
      case 2
      have n: "n = maxAttempts (resolve_options options) + 1 - (attempt + 1)"
        using Suc.hyps(2) by simp
      from Suc.hyps(1) [OF n 2] show ?thesis by simp
    qed
  qed
qed

lemma options_without_callback [simp]:
  "resolve_options (options\<lparr>opt_onRetry := cb\<rparr>) = resolve_options options"
  "shouldRetry_of (options\<lparr>opt_onRetry := cb\<rparr>) = shouldRetry_of options"
  by (simp_all add: resolve_options_def shouldRetry_of_def)

lemma retry_loop_silent_callback:
  assumes "\<forall>e a d. callback e a d = None"
  shows "fst (retry_loop approx fn (options\<lparr>opt_onRetry := Some callback\<rparr>) random attempt prev)
         = fst (retry_loop approx fn (options\<lparr>opt_onRetry := None\<rparr>) random attempt prev)"
proof (induction "maxAttempts (resolve_options options) + 1 - attempt" arbitrary: attempt prev)
  case 0
  then have "\<not> attempt \<le> maxAttempts (resolve_options options)" by simp
  then show ?case by (subst (1 2) retry_loop.simps) (simp add: Let_def)
next
  case (Suc n)
  have n: "n = maxAttempts (resolve_options options) + 1 - (attempt + 1)"
    using Suc.hyps(2) by simp
  have ih: "\<And>e.
     fst (retry_loop approx fn (options\<lparr>opt_onRetry := Some callback\<rparr>) random (attempt + 1) e)
         = fst (retry_loop approx fn (options\<lparr>opt_onRetry := None\<rparr>) random (attempt + 1) e)"
    by (rule Suc.hyps(1) [OF n])
  show ?case
    using assms ih
    by (subst (1 2) retry_loop.simps)
       (auto simp: Let_def call_onRetry_def prepend_def split: sum.splits)
qed

section \<open>Retry delay\<close>



























section \<open>Retry executor\<close>

text \<open>How the default policy classifies the errors of the examples.\<close>

lemma rate_limit_retryable: "defaultShouldRetry (LLMRateLimitError ''anthropic'') i"
  by code_simp

lemma timeout_retryable: "defaultShouldRetry (LLMTimeoutError ''anthropic'' ''60000'') i"
  by code_simp

lemma network_error_retryable: "defaultShouldRetry network_error i"
  by code_simp

lemma authentication_fatal: "\<not> defaultShouldRetry (LLMAuthenticationError ''anthropic'') i"
  by code_simp

lemma validation_fatal: "\<not> defaultShouldRetry validation_error i"
  by code_simp

text \<open>The tests on the message come first and look for digits anywhere in it: an error with
  status 400 whose message happens to contain \<open>500\<close> is retried.\<close>

lemma message_test_precedes_status:
  "defaultShouldRetry (ErrorObject ''Input validation failed: task exceeds 5000 characters''
      None (Some 400)) i"
  by code_simp

text \<open>Two runs of a call that hits a rate limit once and then succeeds, under the default
  options and a random source that always draws 0.5.\<close>

lemma retry_flaky_silent:
  "retry rounded_pow (flaky_call 1) (no_options\<lparr>opt_onRetry := Some silent_callback\<rparr>) half_draws
     = (Inr ''ok'',
        [Called 1, OnRetry (LLMRateLimitError ''anthropic'') 1 1500, Slept 1500, Called 2])"
  by code_simp

lemma retry_flaky_throwing:
  "retry rounded_pow (flaky_call 1) (no_options\<lparr>opt_onRetry := Some throwing_callback\<rparr>) half_draws
     = (Inl (ErrorObject ''callback failed'' None None),
        [Called 1, OnRetry (LLMRateLimitError ''anthropic'') 1 1500])"
  by code_simp

text \<open>
  The loop under the default policy, with a callback that returns normally: let the attempts
  before attempt j (j at most \<open>maxAttempts\<close>) all fail with errors that \<open>defaultShouldRetry\<close>
  accepts. If attempt j succeeds, \<open>retry\<close> returns its value and the callback has run exactly
  j - 1 times. If attempt j fails with an error that \<open>defaultShouldRetry\<close> rejects, that error
  is rethrown at once: the function has been called j times and never again. If attempt j is
  the last one allowed and fails, its error is rethrown unmodified.
\<close>

lemma retry_default_policy:
  assumes "opt_shouldRetry options = None"
    and "opt_onRetry options = Some callback"
    and "\<forall>e a d. callback e a d = None"
    and "1 \<le> j" and "j \<le> maxAttempts (resolve_options options)"
    and "\<forall>i. 1 \<le> i \<and> i < j \<longrightarrow> (\<exists>e. fn i = Inl e \<and> defaultShouldRetry e i)"
  shows "(fn j = Inr v \<longrightarrow>
            fst (retry approx fn options random) = Inr v
            \<and> onRetry_count (snd (retry approx fn options random)) = j - 1)
       \<and> (fn j = Inl e \<and> \<not> defaultShouldRetry e j \<longrightarrow>
            fst (retry approx fn options random) = Inl e
            \<and> call_count (snd (retry approx fn options random)) = j
            \<and> onRetry_count (snd (retry approx fn options random)) = j - 1)
       \<and> (fn j = Inl e \<and> j = maxAttempts (resolve_options options) \<longrightarrow>
            fst (retry approx fn options random) = Inl e
            \<and> call_count (snd (retry approx fn options random)) = maxAttempts (resolve_options options))"
proof -
  have sr: "shouldRetry_of options = defaultShouldRetry"
    using assms(1) by (simp add: shouldRetry_of_def)
  have cb: "\<And>e a d. call_onRetry options e a d = None"
    using assms(2,3) by (simp add: call_onRetry_def)
  have before: "\<forall>i. 1 \<le> i \<and> i < j \<longrightarrow> retried approx fn options random i"
    using assms(6) sr cb by (auto simp: retried_def)
  have run: "decisive fn options j \<Longrightarrow>
     retry approx fn options random
       = (fn j, concat (map (round_events approx fn options random) [1..<j]) @ [Called j])"
    unfolding retry_def using assms(4,5) before by (rule retry_loop_decisive)
  have counts: "onRetry_count (concat (map (round_events approx fn options random) [1..<j]) @ [Called j]) = j - 1"
    "call_count (concat (map (round_events approx fn options random) [1..<j]) @ [Called j]) = j"
    using count_rounds [OF assms(2), of approx fn random 1 j "[Called j]"] assms(4)
    by (simp_all add: onRetry_count_def call_count_def)
  show ?thesis
    using run counts sr by (auto simp: decisive_def)
qed

lemma retry_default_policy_examples:
  "fst (retry rounded_pow (flaky_call 2) (no_options\<lparr>opt_onRetry := Some silent_callback\<rparr>) half_draws) = Inr ''ok''
   \<and> onRetry_count (snd (retry rounded_pow (flaky_call 2)
         (no_options\<lparr>opt_onRetry := Some silent_callback\<rparr>) half_draws)) = 2
   \<and> defaultShouldRetry (LLMRateLimitError ''anthropic'') 1
   \<and> defaultShouldRetry (LLMTimeoutError ''anthropic'' ''60000'') 1
   \<and> defaultShouldRetry network_error 1
   \<and> \<not> defaultShouldRetry (LLMAuthenticationError ''anthropic'') 1
   \<and> \<not> defaultShouldRetry validation_error 1
   \<and> fst (retry rounded_pow (failing_call (LLMAuthenticationError ''anthropic''))
         (no_options\<lparr>opt_onRetry := Some silent_callback\<rparr>) half_draws)
       = Inl (LLMAuthenticationError ''anthropic'')
   \<and> call_count (snd (retry rounded_pow (failing_call (LLMAuthenticationError ''anthropic''))
         (no_options\<lparr>opt_onRetry := Some silent_callback\<rparr>) half_draws)) = 1
   \<and> onRetry_count (snd (retry rounded_pow (failing_call (LLMAuthenticationError ''anthropic''))
         (no_options\<lparr>opt_onRetry := Some silent_callback\<rparr>) half_draws)) = 0
   \<and> fst (retry rounded_pow (failing_call (LLMRateLimitError ''anthropic''))
         (no_options\<lparr>opt_onRetry := Some silent_callback\<rparr>) half_draws)
       = Inl (LLMRateLimitError ''anthropic'')
   \<and> call_count (snd (retry rounded_pow (failing_call (LLMRateLimitError ''anthropic''))
         (no_options\<lparr>opt_onRetry := Some silent_callback\<rparr>) half_draws)) = 3"
proof -
  let ?options = "no_options\<lparr>opt_onRetry := Some silent_callback\<rparr>"
  have o1: "opt_shouldRetry ?options = None" by (simp add: no_options_def)
  have o2: "opt_onRetry ?options = Some silent_callback" by simp
  have o3: "\<forall>e a d. silent_callback e a d = None" by (simp add: silent_callback_def)
  have m: "maxAttempts (resolve_options ?options) = 3"
    by (simp add: resolve_options_def no_options_def DEFAULT_OPTIONS_def)
  note rl = rate_limit_retryable
  note to = timeout_retryable [of 1]
  note nw = network_error_retryable [of 1]
  note au = authentication_fatal [of 1]
  note va = validation_fatal [of 1]
  have b3: "\<forall>i. 1 \<le> i \<and> i < 3 \<longrightarrow> (\<exists>e. flaky_call 2 i = Inl e \<and> defaultShouldRetry e i)"
    using rl by (auto simp: flaky_call_def)
  have b1: "\<forall>i. 1 \<le> i \<and> i < 1 \<longrightarrow>
      (\<exists>e. failing_call (LLMAuthenticationError ''anthropic'') i = Inl e \<and> defaultShouldRetry e i)"
    by simp
  have b3': "\<forall>i. 1 \<le> i \<and> i < 3 \<longrightarrow>
      (\<exists>e. failing_call (LLMRateLimitError ''anthropic'') i = Inl e \<and> defaultShouldRetry e i)"
    using rl by (simp add: failing_call_def)
  have s: "flaky_call 2 3 = Inr ''ok''" by (simp add: flaky_call_def)
  have fa: "failing_call (LLMAuthenticationError ''anthropic'') 1
              = Inl (LLMAuthenticationError ''anthropic'')"
    "failing_call (LLMRateLimitError ''anthropic'') 3 = Inl (LLMRateLimitError ''anthropic'')"
    by (simp_all add: failing_call_def)
  from retry_default_policy [where approx = rounded_pow and v = "''ok''" and random = half_draws and fn = "flaky_call 2",
      OF o1 o2 o3 _ _ b3] m s
  have A: "fst (retry rounded_pow (flaky_call 2) ?options half_draws) = Inr ''ok''
     \<and> onRetry_count (snd (retry rounded_pow (flaky_call 2) ?options half_draws)) = 2"
    by simp
  from retry_default_policy [where approx = rounded_pow and e = "LLMAuthenticationError ''anthropic''" and random = half_draws
      and fn = "failing_call (LLMAuthenticationError ''anthropic'')", OF o1 o2 o3 _ _ b1] m au
  have B: "fst (retry rounded_pow (failing_call (LLMAuthenticationError ''anthropic'')) ?options half_draws)
       = Inl (LLMAuthenticationError ''anthropic'')
     \<and> call_count (snd (retry rounded_pow (failing_call (LLMAuthenticationError ''anthropic'')) ?options half_draws)) = 1
     \<and> onRetry_count (snd (retry rounded_pow (failing_call (LLMAuthenticationError ''anthropic'')) ?options half_draws)) = 0"
    using fa by simp
  from retry_default_policy [where approx = rounded_pow and e = "LLMRateLimitError ''anthropic''" and random = half_draws
      and fn = "failing_call (LLMRateLimitError ''anthropic'')", OF o1 o2 o3 _ _ b3'] m
  have C: "fst (retry rounded_pow (failing_call (LLMRateLimitError ''anthropic'')) ?options half_draws)
       = Inl (LLMRateLimitError ''anthropic'')
     \<and> call_count (snd (retry rounded_pow (failing_call (LLMRateLimitError ''anthropic'')) ?options half_draws)) = 3"
    using fa by simp
  show ?thesis using A B C rl to nw au va by simp
qed

lemma size_error_retryable:
  "defaultShouldRetry (InputSizeExceededError ''task'' ''15000'' ''10240'') i"
  by code_simp

lemma size_error_status: "\<not> status_retryable None (Some 400)"
  by (simp add: status_retryable_def)

text \<open>
  C5 fails on the code, which here departs from its own documentation. The claim has every
  error other than a network, timeout, rate-limit or server-side one rethrown at once, and
  the documentation of \<open>defaultShouldRetry\<close> lists the client errors (4xx except 429) and the
  validation errors among those it does not retry. But the tests on the message come before
  the test on the status and look for the digits 429, 500, 502 and 503 anywhere in it. The
  error that the repository raises for a task of 15000 bytes has status 400, which the test
  on the status rejects, and a message that contains 500: \<open>defaultShouldRetry\<close> accepts it.
  Under the default options, a wrapped call that fails with it every time is made three
  times, with the callback invoked twice, before the error is rethrown, whatever the engine
  and the draws.
\<close>

theorem default_policy_retries_client_error:
  "defaultShouldRetry (InputSizeExceededError ''task'' ''15000'' ''10240'') 1
   \<and> \<not> status_retryable None (Some 400)
   \<and> fst (retry approx (failing_call (InputSizeExceededError ''task'' ''15000'' ''10240''))
            (no_options\<lparr>opt_onRetry := Some silent_callback\<rparr>) random)
       = Inl (InputSizeExceededError ''task'' ''15000'' ''10240'')
   \<and> call_count (snd (retry approx (failing_call (InputSizeExceededError ''task'' ''15000'' ''10240''))
            (no_options\<lparr>opt_onRetry := Some silent_callback\<rparr>) random)) = 3
   \<and> onRetry_count (snd (retry approx (failing_call (InputSizeExceededError ''task'' ''15000'' ''10240''))
            (no_options\<lparr>opt_onRetry := Some silent_callback\<rparr>) random)) = 2"
proof -
  let ?E = "InputSizeExceededError ''task'' ''15000'' ''10240''"
  let ?options = "no_options\<lparr>opt_onRetry := Some silent_callback\<rparr>"
  let ?fn = "failing_call ?E :: nat \<Rightarrow> thrown + string"
  have m0: "maxAttempts (resolve_options no_options) = 3"
    by (simp add: resolve_options_def no_options_def DEFAULT_OPTIONS_def)
  then have m: "maxAttempts (resolve_options ?options) = 3" by simp
  have sr: "shouldRetry_of no_options = defaultShouldRetry"
    by (simp add: shouldRetry_of_def no_options_def)
  have before: "\<forall>i. 1 \<le> i \<and> i < 3 \<longrightarrow> retried approx ?fn ?options random i"
    using size_error_retryable
    by (simp add: retried_def failing_call_def sr call_onRetry_def silent_callback_def)
  have last: "decisive ?fn ?options 3"
    by (simp add: decisive_def failing_call_def m0)
  have run: "retry approx ?fn ?options random
       = (?fn 3, concat (map (round_events approx ?fn ?options random) [1..<3]) @ [Called 3])"
    unfolding retry_def using _ _ before last by (rule retry_loop_decisive) (simp_all add: m0)
  have o: "opt_onRetry ?options = Some silent_callback" by simp
  have counts: "onRetry_count (concat (map (round_events approx ?fn ?options random) [1..<3]) @ [Called 3]) = 2"
    "call_count (concat (map (round_events approx ?fn ?options random) [1..<3]) @ [Called 3]) = 3"
    using count_rounds [OF o, of approx ?fn random 1 3 "[Called 3]"]
    by (simp_all add: onRetry_count_def call_count_def)
  show ?thesis
    unfolding run using counts size_error_retryable [of 1] size_error_status
    by (simp add: failing_call_def)
qed

text \<open>
  C8, as stated, fails. A callback that throws ends the run: \<open>retry\<close> throws what the callback
  threw, without waiting and without a second attempt, where the same call with a callback
  that returns normally succeeds on the second attempt.
\<close>

theorem onRetry_throwing_callback_counterexample:
  "retry rounded_pow (flaky_call 1) (no_options\<lparr>opt_onRetry := Some throwing_callback\<rparr>) half_draws
     = (Inl (ErrorObject ''callback failed'' None None),
        [Called 1, OnRetry (LLMRateLimitError ''anthropic'') 1 1500])
   \<and> retry rounded_pow (flaky_call 1) (no_options\<lparr>opt_onRetry := Some silent_callback\<rparr>) half_draws
     = (Inr ''ok'',
        [Called 1, OnRetry (LLMRateLimitError ''anthropic'') 1 1500, Slept 1500, Called 2])"
  by (simp only: retry_flaky_silent retry_flaky_throwing)

text \<open>
  C8, amended. With a callback supplied, every wait is preceded by an invocation of the
  callback with the same delay; every invocation receives the error of the failed attempt,
  the attempt number and the delay computed for it. A callback that returns normally does
  not alter the outcome: it is the outcome of the same run without a callback. A callback
  that throws in round j ends the run: \<open>retry\<close> throws what the callback threw, the
  invocation is the last event, and attempt j + 1 is never made.
\<close>

theorem onRetry_callback_contract:
  "(opt_onRetry options = Some callback \<longrightarrow> pre_wait_order (snd (retry approx fn options random)))
   \<and> (OnRetry e a d \<in> set (snd (retry approx fn options random)) \<longrightarrow>
        fn a = Inl e \<and> d = calculateDelay approx a (resolve_options options) (random a))
   \<and> ((\<forall>e a d. callback e a d = None) \<longrightarrow>
        fst (retry approx fn (options\<lparr>opt_onRetry := Some callback\<rparr>) random)
        = fst (retry approx fn (options\<lparr>opt_onRetry := None\<rparr>) random))
   \<and> (1 \<le> j \<and> j < maxAttempts (resolve_options options)
        \<and> (\<forall>i. 1 \<le> i \<and> i < j \<longrightarrow> retried approx fn options random i)
        \<and> fn j = Inl e \<and> shouldRetry_of options e j
        \<and> call_onRetry options e j (calculateDelay approx j (resolve_options options) (random j)) = Some t \<longrightarrow>
        fst (retry approx fn options random) = Inl t
        \<and> last (snd (retry approx fn options random))
            = OnRetry e j (calculateDelay approx j (resolve_options options) (random j))
        \<and> Called (j + 1) \<notin> set (snd (retry approx fn options random)))"
proof -
  have 1: "opt_onRetry options = Some callback \<Longrightarrow> pre_wait_order (snd (retry approx fn options random))"
    unfolding retry_def by (rule retry_loop_pre_wait_order)
  have 2: "OnRetry e a d \<in> set (snd (retry approx fn options random)) \<Longrightarrow>
        fn a = Inl e \<and> d = calculateDelay approx a (resolve_options options) (random a)"
    unfolding retry_def using retry_loop_onRetry_arguments by blast
  have 3: "\<forall>e a d. callback e a d = None \<Longrightarrow>
        fst (retry approx fn (options\<lparr>opt_onRetry := Some callback\<rparr>) random)
        = fst (retry approx fn (options\<lparr>opt_onRetry := None\<rparr>) random)"
    unfolding retry_def by (rule retry_loop_silent_callback)
  have 4: "fst (retry approx fn options random) = Inl t
        \<and> last (snd (retry approx fn options random))
            = OnRetry e j (calculateDelay approx j (resolve_options options) (random j))
        \<and> Called (j + 1) \<notin> set (snd (retry approx fn options random))"
    if h: "1 \<le> j" "j < maxAttempts (resolve_options options)"
      "\<forall>i. 1 \<le> i \<and> i < j \<longrightarrow> retried approx fn options random i"
      "fn j = Inl e" "shouldRetry_of options e j"
      "call_onRetry options e j (calculateDelay approx j (resolve_options options) (random j)) = Some t"
  proof -
    have c: "call_onRetry options e j (delay_of approx options random j) = Some t"
      using h(6) by (simp add: delay_of_def)
    then obtain cb where cb: "opt_onRetry options = Some cb"
      by (auto simp: call_onRetry_def split: option.splits)
    have run: "retry approx fn options random
         = (Inl t, concat (map (round_events approx fn options random) [1..<j])
                     @ Called j # onRetry_events options e j (delay_of approx options random j))"
      unfolding retry_def using h(1,2,3,4,5) c by (rule retry_loop_callback_throws)
    have nocall: "Called (j + 1) \<notin> set (concat (map (round_events approx fn options random) [1..<j]))"
      by (auto simp: round_events_def onRetry_events_def split: option.splits)
    show ?thesis using run cb nocall
      by (simp add: onRetry_events_def delay_of_def)
  qed
  show ?thesis using 1 2 3 4 by blast
qed

theorem onRetry_callback_contract_witness:
  "pre_wait_order (snd (retry rounded_pow (flaky_call 1)
       (no_options\<lparr>opt_onRetry := Some silent_callback\<rparr>) half_draws))
   \<and> flaky_call 1 1 = Inl (LLMRateLimitError ''anthropic'')
   \<and> calculateDelay rounded_pow 1 (resolve_options (no_options\<lparr>opt_onRetry := Some silent_callback\<rparr>))
         (half_draws 1) = 1500
   \<and> fst (retry rounded_pow (flaky_call 1) (no_options\<lparr>opt_onRetry := Some silent_callback\<rparr>) half_draws)
       = fst (retry rounded_pow (flaky_call 1) (no_options\<lparr>opt_onRetry := None\<rparr>) half_draws)
   \<and> fst (retry rounded_pow (flaky_call 1) (no_options\<lparr>opt_onRetry := Some throwing_callback\<rparr>) half_draws)
       = Inl (ErrorObject ''callback failed'' None None)
   \<and> Called 2 \<notin> set (snd (retry rounded_pow (flaky_call 1)
         (no_options\<lparr>opt_onRetry := Some throwing_callback\<rparr>) half_draws))"
proof -
  let ?silent = "no_options\<lparr>opt_onRetry := Some silent_callback\<rparr>"
  let ?throwing = "no_options\<lparr>opt_onRetry := Some throwing_callback\<rparr>"
  let ?e = "LLMRateLimitError ''anthropic''"
  let ?t = "ErrorObject ''callback failed'' None None"
  note silent = onRetry_callback_contract [where approx = rounded_pow and options = ?silent and callback = silent_callback
      and fn = "flaky_call 1" and random = half_draws and e = ?e and a = 1 and d = 1500]
  have "opt_onRetry ?silent = Some silent_callback" by simp
  with silent have A: "pre_wait_order (snd (retry rounded_pow (flaky_call 1) ?silent half_draws))" by blast
  have "OnRetry ?e 1 1500 \<in> set (snd (retry rounded_pow (flaky_call 1) ?silent half_draws))"
    unfolding retry_flaky_silent by simp
  with silent have B: "flaky_call 1 1 = Inl ?e
      \<and> calculateDelay rounded_pow 1 (resolve_options ?silent) (half_draws 1) = 1500"
    by metis
  have "\<forall>e a d. silent_callback e a d = None" by (simp add: silent_callback_def)
  with onRetry_callback_contract [where approx = rounded_pow and options = no_options and callback = silent_callback
      and fn = "flaky_call 1" and random = half_draws]
  have C: "fst (retry rounded_pow (flaky_call 1) ?silent half_draws)
       = fst (retry rounded_pow (flaky_call 1) (no_options\<lparr>opt_onRetry := None\<rparr>) half_draws)"
    by blast
  have m: "maxAttempts (resolve_options ?throwing) = 3"
    by (simp add: resolve_options_def no_options_def DEFAULT_OPTIONS_def)
  have h: "1 \<le> (1::nat) \<and> 1 < maxAttempts (resolve_options ?throwing)
        \<and> (\<forall>i. 1 \<le> i \<and> i < 1 \<longrightarrow> retried rounded_pow (flaky_call 1) ?throwing half_draws i)
        \<and> flaky_call 1 1 = Inl ?e \<and> shouldRetry_of ?throwing ?e 1
        \<and> call_onRetry ?throwing ?e 1
             (calculateDelay rounded_pow 1 (resolve_options ?throwing) (half_draws 1)) = Some ?t"
    using m rate_limit_retryable [of 1]
    by (simp add: flaky_call_def shouldRetry_of_def no_options_def call_onRetry_def
        throwing_callback_def)
  from onRetry_callback_contract [where approx = rounded_pow and options = ?throwing and fn = "flaky_call 1"
      and random = half_draws and j = 1 and e = ?e and t = ?t] h
  have D: "fst (retry rounded_pow (flaky_call 1) ?throwing half_draws) = Inl ?t
        \<and> Called 2 \<notin> set (snd (retry rounded_pow (flaky_call 1) ?throwing half_draws))"
    by (simp add: numeral_2_eq_2)
  show ?thesis using A B C D by simp
qed

section \<open>Response interpreter\<close>

lemma fallback_schema_valid: "schema_valid (createFallbackFeedback response)"
proof -
  have "0 \<le> lit (3 / 10) \<and> lit (3 / 10) \<le> 1" by code_simp
  then show ?thesis by (simp add: schema_valid_def createFallbackFeedback_def)
qed

lemma strategies_schema_valid:
  assumes "\<forall>s fb. decode s = Some fb \<longrightarrow> schema_valid fb"
  shows "tryParseDirectJson decode response = Some fb \<Longrightarrow> schema_valid fb"
    and "tryParseCodeBlock decode response = Some fb \<Longrightarrow> schema_valid fb"
    and "tryExtractBalancedJson decode response = Some fb \<Longrightarrow> schema_valid fb"
  using assms
  by (auto simp: tryParseDirectJson_def tryParseCodeBlock_def tryExtractBalancedJson_def Let_def
      split: option.splits if_splits)

text \<open>The same payload on its own, in a labelled fence, in an unlabelled fence and inside
  prose is read as the same feedback.\<close>

lemma parseResponse_example_forms:
  "parseResponse example_decode (''  '' @ example_payload @ ''\<newline>'') = example_feedback"
  "parseResponse example_decode
     (''Here: ```json\<newline>'' @ example_payload @ ''\<newline>``` done'') = example_feedback"
  "parseResponse example_decode
     (''Here: ```\<newline>'' @ example_payload @ ''\<newline>``` done'') = example_feedback"
  "parseResponse example_decode (''I think '' @ example_payload @ '' is right'') = example_feedback"
  by code_simp+

text \<open>
  C4. \<open>parseResponse\<close> is a total function: each \<open>try\<close> block of the three strategies is a
  decoding that may fail, and nothing else in them can throw. Given that the decoder only
  yields schema-valid feedback, the result is schema-valid for every response; and when all
  three strategies fail, the result is exactly the fixed fallback: passed = false, score =
  0.3, two issues that describe the parse failure, a suggestion to retry, and a reasoning
  that names a system-side parse error.
\<close>

theorem parseResponse_valid_or_fallback:
  assumes "\<forall>s fb. decode s = Some fb \<longrightarrow> schema_valid fb"
  shows "schema_valid (parseResponse decode response)
     \<and> (tryParseDirectJson decode response = None
          \<and> tryParseCodeBlock decode response = None
          \<and> tryExtractBalancedJson decode response = None
        \<longrightarrow> parseResponse decode response =
             \<lparr>passed = False,
              score = lit (3 / 10),
              issues = [''Evaluation response could not be parsed'',
                        ''The evaluator did not return valid JSON feedback''],
              suggestions = ''The system will retry the evaluation. If this persists, the workflow may need manual review.'',
              reasoning = Some ''Parse error occurred while processing the discriminator response. This is a system issue, not a reflection of the content quality.''\<rparr>)"
proof -
  have "schema_valid (parseResponse decode response)"
    using strategies_schema_valid [OF assms] fallback_schema_valid
    by (auto simp: parseResponse_def split: option.splits)
  moreover have "parseResponse decode response = createFallbackFeedback response"
    if "tryParseDirectJson decode response = None" "tryParseCodeBlock decode response = None"
      "tryExtractBalancedJson decode response = None"
    using that by (simp add: parseResponse_def)
  ultimately show ?thesis by (simp add: createFallbackFeedback_def)
qed

theorem parseResponse_valid_or_fallback_witness:
  "schema_valid (parseResponse example_decode ''The answer looks {good} to me'')
   \<and> parseResponse example_decode ''The answer looks {good} to me'' = fixed_fallback
   \<and> schema_valid (parseResponse example_decode (''I think '' @ example_payload @ '' is right''))"
proof -
  have v: "schema_valid example_feedback"
  proof -
    have "0 \<le> lit (9 / 10) \<and> lit (9 / 10) \<le> 1" by code_simp
    then show ?thesis by (simp add: schema_valid_def example_feedback_def)
  qed
  have d: "\<forall>s fb. example_decode s = Some fb \<longrightarrow> schema_valid fb"
    using v by (simp add: example_decode_def)
  have n: "tryParseDirectJson example_decode ''The answer looks {good} to me'' = None"
    "tryParseCodeBlock example_decode ''The answer looks {good} to me'' = None"
    "tryExtractBalancedJson example_decode ''The answer looks {good} to me'' = None"
    by code_simp+
  note garbage = parseResponse_valid_or_fallback [OF d, of "''The answer looks {good} to me''"]
  from garbage have a: "schema_valid (parseResponse example_decode ''The answer looks {good} to me'')"
    by (rule conjunct1)
  from garbage n have "parseResponse example_decode ''The answer looks {good} to me'' =
             \<lparr>passed = False,
              score = lit (3 / 10),
              issues = [''Evaluation response could not be parsed'',
                        ''The evaluator did not return valid JSON feedback''],
              suggestions = ''The system will retry the evaluation. If this persists, the workflow may need manual review.'',
              reasoning = Some ''Parse error occurred while processing the discriminator response. This is a system issue, not a reflection of the content quality.''\<rparr>"
    by blast
  then have b: "parseResponse example_decode ''The answer looks {good} to me'' = fixed_fallback"
    by (simp only: fixed_fallback_def)
  from parseResponse_valid_or_fallback [OF d, of "''I think '' @ example_payload @ '' is right''"]
  have c: "schema_valid (parseResponse example_decode (''I think '' @ example_payload @ '' is right''))"
    by (rule conjunct1)
  show ?thesis using a b c by blast
qed

section \<open>State store\<close>

text \<open>A snapshot written and read back at once, with a time to live that is not negative and
  a serialisation that \<open>JSON.parse\<close> inverts, is the snapshot written, with either backing.\<close>

lemma save_then_get:
  assumes "parse (stringify state) = Some state" "stringify state \<noteq> []" "0 \<le> ttlSeconds store"
    and "c = networked_client \<or> c = fallback_client"
  shows "fst (store_get store parse (store_save store stringify c state now True) (ws_id state) now True)
         = Some state"
  using assms
  by (auto simp: store_get_def store_save_def client_get_def client_set_def networked_client_def
      fallback_client_def mem_get_def mem_set_def entry_expired_def redis_get_def redis_live_def
      redis_setex_def redis_set_def split: option.splits prod.splits if_splits)

text \<open>With a time to live of 0 the two backings part as well: the client stores the snapshot
  on the server without expiry (\<open>if (ttlSeconds)\<close>), the fallback lets it expire at once
  (\<open>ttlSeconds !== undefined\<close>).\<close>

lemma zero_ttl_backings_differ:
  "run_ops (default_store\<lparr>ttlSeconds := 0\<rparr>) stringify parse networked_client
      [(Save example_snapshot, 0), (Exists ''w1'', 1)] = [Saved, Existed True]
   \<and> run_ops (default_store\<lparr>ttlSeconds := 0\<rparr>) stringify parse fallback_client
      [(Save example_snapshot, 0), (Exists ''w1'', 1)] = [Saved, Existed False]"
  by (simp add: default_store_def networked_client_def fallback_client_def
      example_snapshot_def store_save_def store_exists_def client_set_def
      client_exists_def mem_set_def mem_exists_def entry_expired_def
      redis_set_def redis_exists_def redis_live_def getKey_def)

text \<open>
  C9 fails on the code. With the default time to live of 24 hours, a snapshot is saved at
  time 0 and deleted one millisecond after its expiry. With the networked backing the
  delete reports false: the entry has expired. With the in-process fallback it reports true:
  \<open>InMemoryStore.del\<close> does not look at \<open>expireAt\<close>, although \<open>get\<close> and \<open>exists\<close> of the same
  class do, so that at the same moment the existence check of the fallback reports false.
\<close>

theorem fallback_delete_after_expiry:
  "run_ops default_store stringify parse networked_client
      [(Save example_snapshot, 0), (Delete ''w1'', 86400001)] = [Saved, Deleted False]
   \<and> run_ops default_store stringify parse fallback_client
      [(Save example_snapshot, 0), (Delete ''w1'', 86400001)] = [Saved, Deleted True]
   \<and> run_ops default_store stringify parse fallback_client
      [(Save example_snapshot, 0), (Exists ''w1'', 86400001)] = [Saved, Existed False]"
  by (simp add: default_store_def DEFAULT_TTL_SECONDS_def networked_client_def fallback_client_def
      example_snapshot_def store_save_def store_delete_def store_exists_def client_set_def
      client_del_def client_exists_def mem_set_def mem_del_def mem_exists_def entry_expired_def
      redis_setex_def redis_del_def redis_live_def getKey_def)

section \<open>Cancellation\<close>

lemma job_resume_from_start:
  "processWorkflowJob rs params w = job_resume rs params 1 initial_state (job_start w)"
  by (simp add: processWorkflowJob_def job_resume_def execute_def)

text \<open>
  C6 fails on the code. A job with \<open>maxIterations\<close> = 3 whose scores stay at 0.5 reaches the
  boundary between iterations 1 and 2 with one record. A cancellation requested there is
  visible to \<open>shouldCancelJob\<close> and marks the snapshot as cancelled, but the loop never asks:
  iterations 2 and 3 run, three iterations are recorded, the stop reason is
  \<open>max_iterations\<close>, and the snapshot ends as completed.
\<close>

theorem cancellation_request_is_ignored:
  "execute_loop (constant_runners (feedback_of False (lit (1 / 2))))
       (RalphOrchestrator_stopConditions None) (example_params 3) 1 initial_state
     = execute_loop (constant_runners (feedback_of False (lit (1 / 2))))
         (RalphOrchestrator_stopConditions None) (example_params 3) 2 after_first_iteration
   \<and> length (history after_first_iteration) = 1
   \<and> shouldCancelJob (cancel_workflow (job_start fresh_world))
   \<and> stored_status (cancel_workflow (job_start fresh_world)) = Some Cancelled_status
   \<and> job_resume (constant_runners (feedback_of False (lit (1 / 2)))) (example_params 3) 2
        after_first_iteration (cancel_workflow (job_start fresh_world))
     = (Inr three_rounds_result, \<lparr>stored_status = Some Completed, progress_cancelled = True\<rparr>)
   \<and> iterations_count three_rounds_result = 3
   \<and> stop_reason three_rounds_result = Max_iterations"
proof -
  have a: "execute_loop (constant_runners (feedback_of False (lit (1 / 2))))
       (RalphOrchestrator_stopConditions None) (example_params 3) 1 initial_state
     = execute_loop (constant_runners (feedback_of False (lit (1 / 2))))
         (RalphOrchestrator_stopConditions None) (example_params 3) 2 after_first_iteration"
    by code_simp
  have b: "job_resume (constant_runners (feedback_of False (lit (1 / 2)))) (example_params 3) 2
        after_first_iteration (cancel_workflow (job_start fresh_world))
     = (Inr three_rounds_result, \<lparr>stored_status = Some Completed, progress_cancelled = True\<rparr>)"
    by code_simp
  have c: "shouldCancelJob (cancel_workflow (job_start fresh_world))"
    "stored_status (cancel_workflow (job_start fresh_world)) = Some Cancelled_status"
    by (simp_all add: shouldCancelJob_def cancel_workflow_def job_start_def fresh_world_def)
  have d: "length (history after_first_iteration) = 1"
    "iterations_count three_rounds_result = 3" "stop_reason three_rounds_result = Max_iterations"
    by (simp_all add: after_first_iteration_def three_rounds_result_def)
  show ?thesis using a b c d by blast
qed

end
